theory Spec2Isabelle
  imports Main "HOL-Library.Word"
begin

unbundle bit_operations_syntax

section \<open>BEE image protection (spsdk/image/bee.py): data and helpers\<close>

text \<open>
  Python \<open>bytes\<close> are lists of 8-bit words, Python integers are \<open>int\<close>. Every
  \<open>raise\<close> of the source is a value \<open>Inl e\<close>; \<open>SPSDKError\<close> carries the message
  of the source so that the raising check can be told apart.
\<close>

type_synonym byte = "8 word"
type_synonym bytes = "byte list"

datatype error =
    SPSDKError string
  | SPSDKOverlapError
  | StructError
  | ValueError
  | OverflowError
  | IndexError

text \<open>Sequencing of fallible steps: the first exception ends the computation.\<close>

definition bind_err :: "error + 'a \<Rightarrow> ('a \<Rightarrow> error + 'b) \<Rightarrow> error + 'b" where
  "bind_err m f = (case m of Inl e \<Rightarrow> Inl e | Inr x \<Rightarrow> f x)"

text \<open>\<open>BEE_ENCR_BLOCK_SIZE\<close> and \<open>_ENCR_BLOCK_ADDR_MASK\<close>.\<close>

definition BEE_ENCR_BLOCK_SIZE :: int where
  "BEE_ENCR_BLOCK_SIZE = 0x400"

definition ENCR_BLOCK_ADDR_MASK :: int where
  "ENCR_BLOCK_ADDR_MASK = BEE_ENCR_BLOCK_SIZE - 1"

subsection \<open>\<open>struct.pack\<close> and \<open>struct.unpack_from\<close> for the formats used\<close>

text \<open>Little-endian bytes of a number, and the number of little-endian bytes.\<close>

fun le_bytes :: "nat \<Rightarrow> int \<Rightarrow> bytes" where
  "le_bytes 0 v = []"
| "le_bytes (Suc n) v = word_of_int (v mod 256) # le_bytes n (v div 256)"

fun from_le :: "bytes \<Rightarrow> int" where
  "from_le [] = 0"
| "from_le (b # bs) = uint b + 256 * from_le bs"

text \<open>Format \<open>I\<close>: an unsigned 32-bit number; \<open>struct.error\<close> outside the range.\<close>

definition u32_ok :: "int \<Rightarrow> bool" where
  "u32_ok v \<longleftrightarrow> 0 \<le> v \<and> v \<le> 0xFFFFFFFF"

definition pack_I :: "int list \<Rightarrow> error + bytes" where
  "pack_I vs = (if list_all u32_ok vs then Inr (concat (map (le_bytes 4) vs)) else Inl StructError)"

definition unpack_I :: "bytes \<Rightarrow> nat \<Rightarrow> int" where
  "unpack_I d off = from_le (take 4 (drop off d))"

text \<open>Format \<open>Ns\<close>: exactly \<open>n\<close> bytes, cut or filled with zero bytes.\<close>

definition pack_s :: "nat \<Rightarrow> bytes \<Rightarrow> bytes" where
  "pack_s n bs = take n bs @ replicate (n - length bs) 0"

definition unpack_s :: "nat \<Rightarrow> bytes \<Rightarrow> nat \<Rightarrow> bytes" where
  "unpack_s n d off = take n (drop off d)"

text \<open>
  \<open>BeeBaseClass.parse\<close>: the size check shared by every \<open>parse\<close>
  (\<open>len(data) - offset < cls._size()\<close>). Offsets are natural numbers: every caller
  passes 0 or a running non-negative offset.
\<close>

definition base_parse :: "int \<Rightarrow> bytes \<Rightarrow> nat \<Rightarrow> error + unit" where
  "base_parse sz d off =
     (if int (length d) - int off < sz then Inl (SPSDKError ''Insufficient size of the data'')
      else Inr ())"

subsection \<open>Helpers of \<open>spsdk.utils\<close> and the cipher library\<close>

text \<open>
  Modelled from the spec: \<open>extend_block\<close> of \<open>spsdk.utils.misc\<close> is not among the
  sources; the spec says of every use "zero padding to offset 0x80", "zero-padded to
  256 bytes", "zero-padded to 512 bytes total". A block already longer than the target
  cannot be padded and is an error.
\<close>

definition extend_block :: "bytes \<Rightarrow> nat \<Rightarrow> error + bytes" where
  "extend_block d n =
     (if n < length d then Inl (SPSDKError ''Incorrect length'')
      else Inr (d @ replicate (n - length d) 0))"

text \<open>
  Modelled from the spec: \<open>split_data\<close> of \<open>spsdk.utils.misc\<close> is not among the
  sources; the spec: "splits the input image into consecutive 1024-byte windows (last
  window may be shorter)".
\<close>

function split_data :: "'a list \<Rightarrow> nat \<Rightarrow> 'a list list" where
  "split_data d n = (if d = [] \<or> n = 0 then [] else take n d # split_data (drop n d) n)"
  by pat_completeness auto
termination
  by (relation "measure (\<lambda>(d, n). length d)") auto

declare split_data.simps [simp del]

text \<open>
  Modelled from the spec: the random-byte source of the crypto backend is not among the
  sources; the spec treats it as an external collaborator. It is a tape of bytes that
  is read from the front; reading \<open>n\<close> bytes returns them and the rest of the tape.
\<close>

type_synonym rng = "nat \<Rightarrow> byte"

definition random_bytes :: "rng \<Rightarrow> nat \<Rightarrow> bytes \<times> rng" where
  "random_bytes g n = (map g [0..<n], \<lambda>i. g (i + n))"

text \<open>
  Modelled from the spec: \<open>align_block_fill_random\<close> of \<open>spsdk.utils.misc\<close> is not
  among the sources; the spec: "Pad block with random bytes up to the next 16-byte
  boundary".
\<close>

definition align_block_fill_random :: "rng \<Rightarrow> bytes \<Rightarrow> nat \<Rightarrow> bytes \<times> rng" where
  "align_block_fill_random g d a =
     (let n = (a - length d mod a) mod a
      in if n = 0 then (d, g)
         else (case random_bytes g n of (r, g') \<Rightarrow> (d @ r, g')))"

text \<open>
  Modelled from the spec: \<open>Counter\<close> of \<open>spsdk.utils.crypto\<close> is not among the
  sources; the spec: "the 16-byte counter field with its low-order 32 bits (big-endian)
  replaced by address >> 4". A value that does not fit 32 bits cannot be written.
\<close>

definition Counter_value :: "bytes \<Rightarrow> int \<Rightarrow> error + bytes" where
  "Counter_value nonce ctr_value =
     (if ctr_value < 0 \<or> ctr_value > 0xFFFFFFFF then Inl OverflowError
      else Inr (take (length nonce - 4) nonce @ rev (le_bytes 4 ctr_value)))"

text \<open>
  The AES block cipher belongs to an external library. It is a parameter: a function
  from a key and a 16-byte block to a block, \<open>E\<close> for encryption and \<open>D\<close> for
  decryption. The modes of operation ECB, CBC and CTR are the standard ones over that
  block function; the library refuses a key that is not 16, 24 or 32 bytes long, an
  initial vector that is not 16 bytes long, and for ECB and CBC data that are not a
  multiple of 16 bytes.
\<close>

type_synonym block_fn = "bytes \<Rightarrow> bytes \<Rightarrow> bytes"

definition xor_bytes :: "bytes \<Rightarrow> bytes \<Rightarrow> bytes" where
  "xor_bytes a b = map2 (XOR) a b"

definition aes_key_ok :: "bytes \<Rightarrow> bool" where
  "aes_key_ok k \<longleftrightarrow> length k = 16 \<or> length k = 24 \<or> length k = 32"

definition aes_ecb :: "block_fn \<Rightarrow> bytes \<Rightarrow> bytes \<Rightarrow> error + bytes" where
  "aes_ecb F k d =
     (if \<not> aes_key_ok k then Inl ValueError
      else if length d mod 16 \<noteq> 0 then Inl ValueError
      else Inr (concat (map (F k) (split_data d 16))))"

fun cbc_enc_blocks :: "block_fn \<Rightarrow> bytes \<Rightarrow> bytes \<Rightarrow> bytes list \<Rightarrow> bytes list" where
  "cbc_enc_blocks E k prev [] = []"
| "cbc_enc_blocks E k prev (b # bs) =
     (let c = E k (xor_bytes b prev) in c # cbc_enc_blocks E k c bs)"

fun cbc_dec_blocks :: "block_fn \<Rightarrow> bytes \<Rightarrow> bytes \<Rightarrow> bytes list \<Rightarrow> bytes list" where
  "cbc_dec_blocks D k prev [] = []"
| "cbc_dec_blocks D k prev (c # cs) = xor_bytes (D k c) prev # cbc_dec_blocks D k c cs"

definition aes_cbc_encrypt :: "block_fn \<Rightarrow> bytes \<Rightarrow> bytes \<Rightarrow> bytes \<Rightarrow> error + bytes" where
  "aes_cbc_encrypt E k iv d =
     (if \<not> aes_key_ok k then Inl ValueError
      else if length iv \<noteq> 16 then Inl ValueError
      else if length d mod 16 \<noteq> 0 then Inl ValueError
      else Inr (concat (cbc_enc_blocks E k iv (split_data d 16))))"

definition aes_cbc_decrypt :: "block_fn \<Rightarrow> bytes \<Rightarrow> bytes \<Rightarrow> bytes \<Rightarrow> error + bytes" where
  "aes_cbc_decrypt D k iv d =
     (if \<not> aes_key_ok k then Inl ValueError
      else if length iv \<noteq> 16 then Inl ValueError
      else if length d mod 16 \<noteq> 0 then Inl ValueError
      else Inr (concat (cbc_dec_blocks D k iv (split_data d 16))))"

text \<open>
  Modelled from the spec: \<open>aes_ctr_encrypt\<close> of the crypto backend is not among the
  sources; the spec: "Encrypt with AES in CTR mode using key and the counter from step
  3; return ciphertext of the padded length". The key stream is the encryption of the
  successive 128-bit big-endian counter values, and the data are XORed with it.
\<close>

fun ctr_keystream :: "block_fn \<Rightarrow> bytes \<Rightarrow> int \<Rightarrow> nat \<Rightarrow> bytes list" where
  "ctr_keystream E k c 0 = []"
| "ctr_keystream E k c (Suc n) =
     E k (rev (le_bytes 16 (c mod 2 ^ 128))) # ctr_keystream E k (c + 1) n"

definition aes_ctr_encrypt :: "block_fn \<Rightarrow> bytes \<Rightarrow> bytes \<Rightarrow> bytes \<Rightarrow> error + bytes" where
  "aes_ctr_encrypt E k d iv =
     (if \<not> aes_key_ok k then Inl ValueError
      else if length iv \<noteq> 16 then Inl ValueError
      else Inr (xor_bytes d
             (concat (ctr_keystream E k (from_le (rev iv)) ((length d + 15) div 16)))))"

text \<open>
  What the development assumes of the block cipher: on a key of an accepted length it
  maps 16-byte blocks to 16-byte blocks (\<open>block_fn_ok\<close>), and decryption undoes
  encryption (\<open>block_cipher_ok\<close>).
\<close>

definition block_fn_ok :: "block_fn \<Rightarrow> bool" where
  "block_fn_ok E \<longleftrightarrow> (\<forall>k b. aes_key_ok k \<and> length b = 16 \<longrightarrow> length (E k b) = 16)"

definition block_cipher_ok :: "block_fn \<Rightarrow> block_fn \<Rightarrow> bool" where
  "block_cipher_ok E D \<longleftrightarrow>
     (\<forall>k b. aes_key_ok k \<and> length b = 16 \<longrightarrow> length (E k b) = 16 \<and> D k (E k b) = b)"

text \<open>
  A toy block cipher (every byte XORed with the XOR of the key bytes), to run the
  definitions on concrete inputs.
\<close>

definition toy_block :: block_fn where
  "toy_block k b = map (\<lambda>x. x XOR foldr (XOR) k 0) b"

section \<open>\<open>BeeFacRegion\<close>\<close>

record BeeFacRegion =
  start_addr :: int
  length_fac :: int
  protected_level :: int

definition end_addr :: "BeeFacRegion \<Rightarrow> int" where
  "end_addr f = start_addr f + length_fac f"

definition BeeFacRegion_validate :: "BeeFacRegion \<Rightarrow> error + unit" where
  "BeeFacRegion_validate f =
     (if (start_addr f AND ENCR_BLOCK_ADDR_MASK \<noteq> 0) \<and> (length_fac f AND ENCR_BLOCK_ADDR_MASK \<noteq> 0)
      then Inl (SPSDKError ''Invalid configuration of the instance'')
      else if protected_level f < 0 \<or> protected_level f > 3
      then Inl (SPSDKError ''Invalid protected level'')
      else if start_addr f < 0 \<or> end_addr f > 0xFFFFFFFF \<or> start_addr f \<ge> end_addr f
      then Inl (SPSDKError ''Invalid start/end address'')
      else Inr ())"

text \<open>The constructor validates at once.\<close>

definition BeeFacRegion_init :: "int \<Rightarrow> int \<Rightarrow> int \<Rightarrow> error + BeeFacRegion" where
  "BeeFacRegion_init start len lvl =
     (let f = \<lparr>start_addr = start, length_fac = len, protected_level = lvl\<rparr>
      in bind_err (BeeFacRegion_validate f) (\<lambda>_. Inr f))"

definition BeeFacRegion_size :: int where
  "BeeFacRegion_size = 32"

text \<open>\<open>export\<close>: \<open>update\<close> (nothing to do), \<open>validate\<close>, then \<open>pack("<3I20s", ...)\<close>.\<close>

definition BeeFacRegion_export :: "BeeFacRegion \<Rightarrow> error + bytes" where
  "BeeFacRegion_export f =
     bind_err (BeeFacRegion_validate f) (\<lambda>_.
     bind_err (pack_I [start_addr f, end_addr f, protected_level f]) (\<lambda>hdr.
     Inr (hdr @ pack_s 20 (replicate 20 0))))"

definition BeeFacRegion_parse :: "bytes \<Rightarrow> nat \<Rightarrow> error + BeeFacRegion" where
  "BeeFacRegion_parse d off =
     bind_err (base_parse BeeFacRegion_size d off) (\<lambda>_.
       let start = unpack_I d off;
           end = unpack_I d (off + 4);
           lvl = unpack_I d (off + 8);
           reserved = unpack_s 20 d (off + 12)
       in if reserved \<noteq> replicate 20 0 then Inl (SPSDKError ''Reserved area is non-zero'')
          else BeeFacRegion_init start (end - start) lvl)"

section \<open>\<open>BeeProtectRegionBlock\<close> (PRDB)\<close>

text \<open>\<open>BeeProtectRegionBlockAesMode\<close>: the mode is the number written to the wire.\<close>

definition AesMode_ECB :: int where
  "AesMode_ECB = 0"

definition AesMode_CTR :: int where
  "AesMode_CTR = 1"

definition TAGL :: int where
  "TAGL = 0x5F474154"

definition TAGH :: int where
  "TAGH = 0x52444845"

definition VERSION :: int where
  "VERSION = 0x56010000"

definition FAC_REGIONS :: nat where
  "FAC_REGIONS = 4"

definition PRDB_SIZE :: nat where
  "PRDB_SIZE = 0x100"

text \<open>\<open>calcsize("<8I16s32s")\<close>\<close>

definition PRDB_FORMAT_SIZE :: nat where
  "PRDB_FORMAT_SIZE = 80"

record BeeProtectRegionBlock =
  prdb_start_addr :: int
  prdb_end_addr :: int
  mode :: int
  lock_options :: int
  counter :: bytes
  fac_regions :: "BeeFacRegion list"

text \<open>
  The constructor: the addresses start as 0 and 0xFFFFFFFF, there is no region; a
  counter that is absent or empty is replaced by 12 random bytes and four zero bytes.
\<close>

definition BeeProtectRegionBlock_init ::
  "rng \<Rightarrow> int \<Rightarrow> int \<Rightarrow> bytes option \<Rightarrow> BeeProtectRegionBlock \<times> rng" where
  "BeeProtectRegionBlock_init g encr_mode lock cnt =
     (case (case cnt of
              Some c \<Rightarrow> if c \<noteq> [] then (c, g)
                        else (case random_bytes g 12 of (r, g') \<Rightarrow> (r @ [0, 0, 0, 0], g'))
            | None \<Rightarrow> (case random_bytes g 12 of (r, g') \<Rightarrow> (r @ [0, 0, 0, 0], g')))
      of (c, g') \<Rightarrow>
        (\<lparr>prdb_start_addr = 0, prdb_end_addr = 0xFFFFFFFF, mode = encr_mode,
          lock_options = lock, counter = c, fac_regions = []\<rparr>, g'))"

definition fac_count :: "BeeProtectRegionBlock \<Rightarrow> nat" where
  "fac_count p = length (fac_regions p)"

text \<open>\<open>update\<close>: the loop over the regions that takes the least start and the greatest end.\<close>

fun update_loop :: "BeeFacRegion list \<Rightarrow> int \<Rightarrow> int \<Rightarrow> int \<times> int" where
  "update_loop [] min_addr max_addr = (min_addr, max_addr)"
| "update_loop (fac # fs) min_addr max_addr =
     update_loop fs (min min_addr (start_addr fac)) (max max_addr (end_addr fac))"

definition BeeProtectRegionBlock_update :: "BeeProtectRegionBlock \<Rightarrow> BeeProtectRegionBlock" where
  "BeeProtectRegionBlock_update p =
     (case update_loop (fac_regions p) (if fac_count p = 0 then 0 else 0xFFFFFFFF) 0 of
        (min_addr, max_addr) \<Rightarrow> p\<lparr>prdb_start_addr := min_addr, prdb_end_addr := max_addr\<rparr>)"

definition add_fac :: "BeeProtectRegionBlock \<Rightarrow> BeeFacRegion \<Rightarrow> BeeProtectRegionBlock" where
  "add_fac p fac = BeeProtectRegionBlock_update (p\<lparr>fac_regions := fac_regions p @ [fac]\<rparr>)"

fun validate_regions :: "BeeFacRegion list \<Rightarrow> error + unit" where
  "validate_regions [] = Inr ()"
| "validate_regions (fac # fs) = bind_err (BeeFacRegion_validate fac) (\<lambda>_. validate_regions fs)"

definition BeeProtectRegionBlock_validate :: "BeeProtectRegionBlock \<Rightarrow> error + unit" where
  "BeeProtectRegionBlock_validate p =
     (if prdb_start_addr p < 0 \<or> prdb_start_addr p > 0xFFFFFFFF
      then Inl (SPSDKError ''Invalid start address'')
      else if prdb_start_addr p > prdb_end_addr p \<or> prdb_end_addr p > 0xFFFFFFFF
      then Inl (SPSDKError ''Invalid start/end address'')
      else if mode p \<noteq> AesMode_CTR
      then Inl (SPSDKError ''Only AES/CTR encryption mode supported now'')
      else if length (counter p) \<noteq> 16
      then Inl (SPSDKError ''Invalid counter'')
      else if drop (length (counter p) - 4) (counter p) \<noteq> [0, 0, 0, 0]
      then Inl (SPSDKError ''last four bytes must be zero'')
      else if fac_count p \<le> 0 \<or> fac_count p > FAC_REGIONS
      then Inl (SPSDKError ''Invalid FAC regions'')
      else validate_regions (fac_regions p))"

fun export_regions :: "BeeFacRegion list \<Rightarrow> error + bytes" where
  "export_regions [] = Inr []"
| "export_regions (fac # fs) =
     bind_err (BeeFacRegion_export fac) (\<lambda>b.
     bind_err (export_regions fs) (\<lambda>bs. Inr (b @ bs)))"

text \<open>
  \<open>export\<close> first updates the object (it stays updated afterwards), validates it, packs
  the header with the counter reversed, appends the regions and pads to 256 bytes.
\<close>

definition BeeProtectRegionBlock_export :: "BeeProtectRegionBlock \<Rightarrow> error + bytes" where
  "BeeProtectRegionBlock_export p0 =
     (let p = BeeProtectRegionBlock_update p0 in
      bind_err (BeeProtectRegionBlock_validate p) (\<lambda>_.
      bind_err (pack_I [TAGL, TAGH, VERSION, int (fac_count p), prdb_start_addr p,
                        prdb_end_addr p, mode p, lock_options p]) (\<lambda>hdr.
      bind_err (export_regions (fac_regions p)) (\<lambda>facs.
      extend_block (hdr @ pack_s 16 (rev (counter p)) @ pack_s 32 (replicate 32 0) @ facs)
        PRDB_SIZE))))"

text \<open>The loop of \<open>parse\<close> over the regions announced by the header.\<close>

fun parse_regions ::
  "nat \<Rightarrow> bytes \<Rightarrow> nat \<Rightarrow> BeeProtectRegionBlock \<Rightarrow> error + BeeProtectRegionBlock" where
  "parse_regions 0 d off p = Inr p"
| "parse_regions (Suc n) d off p =
     bind_err (BeeFacRegion_parse d off) (\<lambda>fac.
       parse_regions n d (off + nat BeeFacRegion_size) (add_fac p fac))"

definition BeeProtectRegionBlock_parse ::
  "rng \<Rightarrow> bytes \<Rightarrow> nat \<Rightarrow> error + BeeProtectRegionBlock" where
  "BeeProtectRegionBlock_parse g d off =
     bind_err (base_parse (int PRDB_SIZE) d off) (\<lambda>_.
       let tagl = unpack_I d off;
           tagh = unpack_I d (off + 4);
           version = unpack_I d (off + 8);
           n = unpack_I d (off + 12);
           start = unpack_I d (off + 16);
           end = unpack_I d (off + 20);
           m = unpack_I d (off + 24);
           lock = unpack_I d (off + 28);
           cnt = unpack_s 16 d (off + 32);
           reserved_32 = unpack_s 32 d (off + 48)
       in if tagl \<noteq> TAGL \<or> tagh \<noteq> TAGH
          then Inl (SPSDKError ''Invalid tag or unsupported version'')
          else if version \<noteq> VERSION then Inl (SPSDKError ''Unsupported version'')
          else if reserved_32 \<noteq> replicate 32 0 then Inl (SPSDKError ''Reserved area is non-zero'')
          else
            let result = fst (BeeProtectRegionBlock_init g m lock (Some (rev cnt)));
                result = result\<lparr>prdb_start_addr := start, prdb_end_addr := end\<rparr>
            in bind_err (parse_regions (nat n) d (off + PRDB_FORMAT_SIZE) result) (\<lambda>result.
               bind_err (BeeProtectRegionBlock_validate result) (\<lambda>_. Inr result)))"

definition is_inside_region :: "BeeProtectRegionBlock \<Rightarrow> int \<Rightarrow> bool" where
  "is_inside_region p a \<longleftrightarrow> prdb_start_addr p \<le> a \<and> a < prdb_end_addr p"

text \<open>
  The loop of \<open>encrypt_block\<close> over the regions: the first region that holds the start
  address decides; with no such region the loop ends and the block is returned as it is.
\<close>

fun encrypt_block_loop ::
  "rng \<Rightarrow> block_fn \<Rightarrow> BeeProtectRegionBlock \<Rightarrow> bytes \<Rightarrow> int \<Rightarrow> bytes \<Rightarrow> BeeFacRegion list
     \<Rightarrow> error + bytes \<times> rng" where
  "encrypt_block_loop g E p k a d [] = Inr (d, g)"
| "encrypt_block_loop g E p k a d (fac # fs) =
     (if start_addr fac \<le> a \<and> a < end_addr fac then
        (if a + int (length d) > end_addr fac then Inl (SPSDKError ''Invalid range of region'')
         else bind_err (Counter_value (counter p) (drop_bit 4 a)) (\<lambda>iv.
              case align_block_fill_random g d 16 of (d', g') \<Rightarrow>
                bind_err (aes_ctr_encrypt E k d' iv) (\<lambda>c. Inr (c, g'))))
      else encrypt_block_loop g E p k a d fs)"

definition encrypt_block ::
  "rng \<Rightarrow> block_fn \<Rightarrow> BeeProtectRegionBlock \<Rightarrow> bytes \<Rightarrow> int \<Rightarrow> bytes \<Rightarrow> error + bytes \<times> rng" where
  "encrypt_block g E p k a d =
     (if int (length d) > BEE_ENCR_BLOCK_SIZE
      then Inl (SPSDKError ''Incorrect length of binary block to be encrypted'')
      else if is_inside_region p a then
        (if mode p \<noteq> AesMode_CTR
         then Inl (SPSDKError ''only AES/CTR encryption mode supported now'')
         else if length k \<noteq> 16 then Inl (SPSDKError ''Invalid length of key'')
         else encrypt_block_loop g E p k a d (fac_regions p))
      else Inr (d, g))"

text \<open>Calling \<open>encrypt_block\<close> again and again on what the call before returned.\<close>

fun encrypt_block_times ::
  "nat \<Rightarrow> rng \<Rightarrow> block_fn \<Rightarrow> BeeProtectRegionBlock \<Rightarrow> bytes \<Rightarrow> int \<Rightarrow> bytes
     \<Rightarrow> error + bytes \<times> rng" where
  "encrypt_block_times 0 g E p k a d = Inr (d, g)"
| "encrypt_block_times (Suc n) g E p k a d =
     bind_err (encrypt_block g E p k a d) (\<lambda>(d', g'). encrypt_block_times n g' E p k a d')"

section \<open>\<open>BeeKIB\<close>\<close>

record BeeKIB =
  kib_key :: bytes
  kib_iv :: bytes

definition KEY_LEN :: nat where
  "KEY_LEN = 16"

definition BeeKIB_size :: int where
  "BeeKIB_size = 32"

text \<open>The constructor: a key or vector that is absent or empty is replaced by 16 random bytes.\<close>

definition or_random :: "rng \<Rightarrow> bytes option \<Rightarrow> nat \<Rightarrow> bytes \<times> rng" where
  "or_random g v n =
     (case v of Some b \<Rightarrow> if b \<noteq> [] then (b, g) else random_bytes g n
      | None \<Rightarrow> random_bytes g n)"

definition BeeKIB_init :: "rng \<Rightarrow> bytes option \<Rightarrow> bytes option \<Rightarrow> BeeKIB \<times> rng" where
  "BeeKIB_init g key iv =
     (case or_random g key 16 of (k, g1) \<Rightarrow>
      case or_random g1 iv 16 of (v, g2) \<Rightarrow> (\<lparr>kib_key = k, kib_iv = v\<rparr>, g2))"

definition BeeKIB_validate :: "BeeKIB \<Rightarrow> error + unit" where
  "BeeKIB_validate b =
     (if length (kib_key b) \<noteq> KEY_LEN then Inl (SPSDKError ''Invalid length of kib key'')
      else if length (kib_iv b) \<noteq> KEY_LEN then Inl (SPSDKError ''Invalid length of kib iv'')
      else Inr ())"

definition BeeKIB_export :: "BeeKIB \<Rightarrow> error + bytes" where
  "BeeKIB_export b =
     bind_err (BeeKIB_validate b) (\<lambda>_. Inr (pack_s 16 (kib_key b) @ pack_s 16 (kib_iv b)))"

definition BeeKIB_parse :: "rng \<Rightarrow> bytes \<Rightarrow> nat \<Rightarrow> error + BeeKIB" where
  "BeeKIB_parse g d off =
     bind_err (base_parse BeeKIB_size d off) (\<lambda>_.
       let key = unpack_s 16 d off;
           iv = unpack_s 16 d (off + 16);
           result = fst (BeeKIB_init g (Some key) (Some iv))
       in bind_err (BeeKIB_validate result) (\<lambda>_. Inr result))"

section \<open>\<open>BeeRegionHeader\<close>\<close>

definition PRDB_OFFSET :: nat where
  "PRDB_OFFSET = 0x80"

definition HEADER_SIZE :: nat where
  "HEADER_SIZE = 0x200"

record BeeRegionHeader =
  prdb :: BeeProtectRegionBlock
  sw_key :: bytes
  kib :: BeeKIB

text \<open>The constructor: each part that is \<open>None\<close> is replaced by its default.\<close>

definition BeeRegionHeader_init ::
  "rng \<Rightarrow> BeeProtectRegionBlock option \<Rightarrow> bytes option \<Rightarrow> BeeKIB option
     \<Rightarrow> BeeRegionHeader \<times> rng" where
  "BeeRegionHeader_init g p k b =
     (case (case p of Some p' \<Rightarrow> (p', g)
            | None \<Rightarrow> BeeProtectRegionBlock_init g AesMode_CTR 0 None) of (p', g1) \<Rightarrow>
      case (case k of Some k' \<Rightarrow> (k', g1) | None \<Rightarrow> random_bytes g1 16) of (k', g2) \<Rightarrow>
      case (case b of Some b' \<Rightarrow> (b', g2) | None \<Rightarrow> BeeKIB_init g2 None None) of (b', g3) \<Rightarrow>
        (\<lparr>prdb = p', sw_key = k', kib = b'\<rparr>, g3))"

definition header_fac_regions :: "BeeRegionHeader \<Rightarrow> BeeFacRegion list" where
  "header_fac_regions h = fac_regions (prdb h)"

definition header_add_fac :: "BeeRegionHeader \<Rightarrow> BeeFacRegion \<Rightarrow> BeeRegionHeader" where
  "header_add_fac h fac = h\<lparr>prdb := add_fac (prdb h) fac\<rparr>"

text \<open>
  \<open>sw_key_fuses\<close>: \<open>pos\<close> runs over 16, 12, 8, 4; each step reads the slice
  \<open>sw_key[pos - 4 : pos]\<close> as a big-endian 32-bit number, and \<open>unpack_from\<close> raises
  when the slice has less than four bytes.
\<close>

fun sw_key_fuses_loop :: "bytes \<Rightarrow> nat list \<Rightarrow> error + int list" where
  "sw_key_fuses_loop k [] = Inr []"
| "sw_key_fuses_loop k (pos # ps) =
     (let s = drop (pos - 4) (take pos k)
      in if length s < 4 then Inl StructError
         else bind_err (sw_key_fuses_loop k ps) (\<lambda>r. Inr (from_le (rev (take 4 s)) # r)))"

definition sw_key_fuses :: "BeeRegionHeader \<Rightarrow> error + int list" where
  "sw_key_fuses h = sw_key_fuses_loop (sw_key h) [16, 12, 8, 4]"

definition BeeRegionHeader_update :: "BeeRegionHeader \<Rightarrow> BeeRegionHeader" where
  "BeeRegionHeader_update h = h\<lparr>prdb := BeeProtectRegionBlock_update (prdb h)\<rparr>"

definition BeeRegionHeader_validate :: "BeeRegionHeader \<Rightarrow> error + unit" where
  "BeeRegionHeader_validate h =
     bind_err (BeeKIB_validate (kib h)) (\<lambda>_.
     bind_err (BeeProtectRegionBlock_validate (prdb h)) (\<lambda>_.
     if length (sw_key h) \<noteq> 16 then Inl (SPSDKError ''Invalid settings'') else Inr ()))"

text \<open>
  \<open>export\<close>: update and validate; the KIB encrypted with AES-ECB under the software
  key, padding to \<open>PRDB_OFFSET\<close>; the PRDB encrypted with AES-CBC under the KIB key and
  vector, padding to the total size. The debug-info sink only records what is written.
\<close>

definition BeeRegionHeader_export :: "block_fn \<Rightarrow> BeeRegionHeader \<Rightarrow> error + bytes" where
  "BeeRegionHeader_export E h0 =
     (let h = BeeRegionHeader_update h0 in
      bind_err (BeeRegionHeader_validate h) (\<lambda>_.
      bind_err (BeeKIB_export (kib h)) (\<lambda>kib_data.
      bind_err (aes_ecb E (sw_key h) kib_data) (\<lambda>ekib.
      bind_err (extend_block ekib PRDB_OFFSET) (\<lambda>result.
      bind_err (BeeProtectRegionBlock_export (prdb h)) (\<lambda>prdb_data.
      bind_err (aes_cbc_encrypt E (kib_key (kib h)) (kib_iv (kib h)) prdb_data) (\<lambda>eprdb.
      extend_block (result @ eprdb) HEADER_SIZE)))))))"

text \<open>The Python slice \<open>data[a : b]\<close> for \<open>0 \<le> a \<le> b\<close>.\<close>

definition slice :: "'a list \<Rightarrow> nat \<Rightarrow> nat \<Rightarrow> 'a list" where
  "slice d a b = take (b - a) (drop a d)"

definition BeeRegionHeader_parse ::
  "rng \<Rightarrow> block_fn \<Rightarrow> bytes \<Rightarrow> nat \<Rightarrow> bytes \<Rightarrow> error + BeeRegionHeader" where
  "BeeRegionHeader_parse g D d off k =
     bind_err (base_parse (int HEADER_SIZE) d off) (\<lambda>_.
     if length k \<noteq> 16 then Inl (SPSDKError ''Invalid sw key'')
     else
     bind_err (aes_ecb D k (slice d off (off + nat BeeKIB_size))) (\<lambda>decr_data.
     bind_err (BeeKIB_parse g decr_data 0) (\<lambda>b.
     bind_err (aes_cbc_decrypt D (kib_key b) (kib_iv b)
                 (slice d (off + PRDB_OFFSET) (off + PRDB_OFFSET + PRDB_SIZE))) (\<lambda>decr_data.
     bind_err (BeeProtectRegionBlock_parse g decr_data 0) (\<lambda>p.
       let result = fst (BeeRegionHeader_init g (Some p) (Some k) (Some b))
       in bind_err (BeeRegionHeader_validate result) (\<lambda>_. Inr result))))))"

definition header_is_inside_region :: "BeeRegionHeader \<Rightarrow> int \<Rightarrow> bool" where
  "header_is_inside_region h a = is_inside_region (prdb h) a"


section \<open>\<open>BeeNxp\<close>\<close>

record BeeNxp =
  headers :: "BeeRegionHeader list"
  input_image :: bytes
  base_address :: int




fun export_headers_loop :: "block_fn \<Rightarrow> BeeRegionHeader list \<Rightarrow> error + bytes list" where
  "export_headers_loop E [] = Inr []"
| "export_headers_loop E (h # hs) =
     bind_err (BeeRegionHeader_export E h) (\<lambda>b.
     bind_err (export_headers_loop E hs) (\<lambda>bs. Inr (b # bs)))"

definition export_headers :: "block_fn \<Rightarrow> BeeNxp \<Rightarrow> error + bytes list" where
  "export_headers E bee = export_headers_loop E (headers bee)"

text \<open>\<open>check_overlaps\<close>: the two nested loops, over the headers and over their regions.\<close>

fun check_overlaps_regions :: "BeeFacRegion list \<Rightarrow> int \<Rightarrow> error + unit" where
  "check_overlaps_regions [] a = Inr ()"
| "check_overlaps_regions (region # rs) a =
     (if start_addr region \<le> a \<and> a < end_addr region then Inl SPSDKOverlapError
      else check_overlaps_regions rs a)"

fun check_overlaps :: "BeeRegionHeader list \<Rightarrow> int \<Rightarrow> error + unit" where
  "check_overlaps [] a = Inr ()"
| "check_overlaps (h # hs) a =
     bind_err (check_overlaps_regions (header_fac_regions h) a) (\<lambda>_. check_overlaps hs a)"

text \<open>
  \<open>load_from_config\<close>, the part that registers the protected regions. The headers built
  before may share one PRDB object (the default one, when two engines are selected and
  neither loads a header from a file), so the PRDB objects live in a store and a header
  holds the address of its PRDB. \<open>header_views\<close> is what a reader of the header list sees.
\<close>

record header_obj =
  prdb_ref :: nat
  obj_sw_key :: bytes
  obj_kib :: BeeKIB

record config_state =
  store :: "nat \<Rightarrow> BeeProtectRegionBlock"
  bee_headers :: "header_obj list"

definition header_views :: "config_state \<Rightarrow> BeeRegionHeader list" where
  "header_views st =
     map (\<lambda>h. \<lparr>prdb = store st (prdb_ref h), sw_key = obj_sw_key h, kib = obj_kib h\<rparr>)
       (bee_headers st)"

text \<open>
  One protected region of the configuration of engine \<open>engine_idx\<close>: construct the
  region, check it against every header, add it to the header of that index (an
  \<open>IndexError\<close> when there is no such header).
\<close>

definition add_protected_region ::
  "config_state \<Rightarrow> nat \<Rightarrow> int \<times> int \<times> int \<Rightarrow> error + config_state" where
  "add_protected_region st engine_idx r =
     (case r of (start, len, lvl) \<Rightarrow>
      bind_err (BeeFacRegion_init start len lvl) (\<lambda>fac.
      bind_err (check_overlaps (header_views st) (start_addr fac)) (\<lambda>_.
      if engine_idx < length (bee_headers st)
      then (let ref = prdb_ref (bee_headers st ! engine_idx)
            in Inr (st\<lparr>store := (store st)(ref := add_fac (store st ref) fac)\<rparr>))
      else Inl IndexError)))"

fun load_engine_regions ::
  "config_state \<Rightarrow> nat \<Rightarrow> (int \<times> int \<times> int) list \<Rightarrow> error + config_state" where
  "load_engine_regions st engine_idx [] = Inr st"
| "load_engine_regions st engine_idx (r # rs) =
     bind_err (add_protected_region st engine_idx r) (\<lambda>st'.
       load_engine_regions st' engine_idx rs)"

fun load_regions ::
  "config_state \<Rightarrow> nat \<Rightarrow> (int \<times> int \<times> int) list list \<Rightarrow> error + config_state" where
  "load_regions st engine_idx [] = Inr st"
| "load_regions st engine_idx (e # es) =
     bind_err (load_engine_regions st engine_idx e) (\<lambda>st'. load_regions st' (Suc engine_idx) es)"

section \<open>Concrete objects\<close>

text \<open>Objects on which the definitions are run: keys, a counter, regions, headers, tapes.\<close>

definition example_key :: bytes where
  "example_key = [0, 1, 2, 3, 4, 5, 6, 7, 8, 9, 10, 11, 12, 13, 14, 15]"

definition example_counter :: bytes where
  "example_counter = [1, 2, 3, 4, 5, 6, 7, 8, 9, 10, 11, 12, 0, 0, 0, 0]"

definition example_fac :: BeeFacRegion where
  "example_fac = \<lparr>start_addr = 0x1000, length_fac = 0x400, protected_level = 1\<rparr>"

definition example_prdb :: BeeProtectRegionBlock where
  "example_prdb =
     \<lparr>prdb_start_addr = 0x1000, prdb_end_addr = 0x1400, mode = 1, lock_options = 7,
      counter = example_counter, fac_regions = [example_fac]\<rparr>"

definition example_kib :: BeeKIB where
  "example_kib = \<lparr>kib_key = example_key, kib_iv = example_counter\<rparr>"

definition example_header :: BeeRegionHeader where
  "example_header = \<lparr>prdb = example_prdb, sw_key = example_key, kib = example_kib\<rparr>"

text \<open>A PRDB with the regions [0, 0x400) and [0x800, 0xC00): the gap is [0x400, 0x800).\<close>

definition gap_prdb :: BeeProtectRegionBlock where
  "gap_prdb =
     \<lparr>prdb_start_addr = 0, prdb_end_addr = 0xC00, mode = 1, lock_options = 0,
      counter = example_counter,
      fac_regions = [\<lparr>start_addr = 0, length_fac = 0x400, protected_level = 0\<rparr>,
                     \<lparr>start_addr = 0x800, length_fac = 0x400, protected_level = 0\<rparr>]\<rparr>"

definition tape_zero :: rng where
  "tape_zero = (\<lambda>_. 0)"

definition tape_ones :: rng where
  "tape_ones = (\<lambda>_. 0xFF)"

text \<open>
  Two headers that share the default PRDB object at address 0 of the store, as built
  when both engines are selected and neither loads a header from a file; no region yet.
\<close>

definition example_config :: config_state where
  "example_config =
     \<lparr>store = (\<lambda>_. \<lparr>prdb_start_addr = 0, prdb_end_addr = 0xFFFFFFFF, mode = 1,
                       lock_options = 0, counter = example_counter, fac_regions = []\<rparr>),
      bee_headers = [\<lparr>prdb_ref = 0, obj_sw_key = example_key, obj_kib = example_kib\<rparr>,
                     \<lparr>prdb_ref = 0, obj_sw_key = example_counter, obj_kib = example_kib\<rparr>]\<rparr>"


section \<open>Properties\<close>

subsection \<open>Numbers and FAC regions on the wire\<close>

lemma length_le_bytes [simp]: "length (le_bytes n v) = n"
  by (induction n arbitrary: v) auto

lemma from_le_le_bytes: "0 \<le> v \<Longrightarrow> v < 256 ^ n \<Longrightarrow> from_le (le_bytes n v) = v"
proof (induction n arbitrary: v)
  case 0
  then show ?case by simp
next
  case (Suc n)
  have d: "0 \<le> v div 256" "v div 256 < 256 ^ n"
  proof -
    show "0 \<le> v div 256" using Suc.prems by simp
    have "v < 256 * (256 ^ n)" using Suc.prems by simp
    then show "v div 256 < 256 ^ n" by linarith
  qed
  have "uint (word_of_int (v mod 256) :: 8 word) = v mod 256"
    by (simp add: uint_word_of_int take_bit_eq_mod)
  then show ?case using Suc.IH [OF d] by simp
qed

lemma unpack_I_at:
  "u32_ok v \<Longrightarrow> unpack_I (pre @ le_bytes 4 v @ post) (length pre) = v"
  unfolding unpack_I_def u32_ok_def
  using from_le_le_bytes [of v 4] by simp

lemma fac_export_ok:
  assumes "BeeFacRegion_validate f = Inr ()"
  shows "BeeFacRegion_export f =
    Inr (le_bytes 4 (start_addr f) @ le_bytes 4 (end_addr f) @ le_bytes 4 (protected_level f) @ replicate 20 0)"
  using assms
  by (auto simp: BeeFacRegion_export_def BeeFacRegion_validate_def bind_err_def pack_I_def u32_ok_def pack_s_def end_addr_def split: if_splits)

lemma fac_validate_u32:
  assumes "BeeFacRegion_validate f = Inr ()"
  shows "u32_ok (start_addr f)" "u32_ok (end_addr f)" "u32_ok (protected_level f)"
  using assms
  by (auto simp: BeeFacRegion_validate_def u32_ok_def end_addr_def split: if_splits)

lemma fac_export_length:
  "BeeFacRegion_export f = Inr bs \<Longrightarrow> length bs = 32"
  by (auto simp: BeeFacRegion_export_def bind_err_def pack_I_def pack_s_def
      split: sum.splits if_splits)

lemma fac_parse_export:
  assumes v: "BeeFacRegion_validate f = Inr ()"
  shows "BeeFacRegion_parse
           (pre @ (le_bytes 4 (start_addr f) @ le_bytes 4 (end_addr f) @
                   le_bytes 4 (protected_level f) @ replicate 20 0) @ post) (length pre) = Inr f"
proof -
  let ?d = "pre @ (le_bytes 4 (start_addr f) @ le_bytes 4 (end_addr f) @
                   le_bytes 4 (protected_level f) @ replicate 20 0) @ post"
  have s: "unpack_I ?d (length pre) = start_addr f"
    using from_le_le_bytes [of "start_addr f" 4] fac_validate_u32(1) [OF v]
    by (simp add: unpack_I_def u32_ok_def)
  have e: "unpack_I ?d (length pre + 4) = end_addr f"
    using from_le_le_bytes [of "end_addr f" 4] fac_validate_u32(2) [OF v]
    by (simp add: unpack_I_def u32_ok_def)
  have l: "unpack_I ?d (length pre + 8) = protected_level f"
    using from_le_le_bytes [of "protected_level f" 4] fac_validate_u32(3) [OF v]
    by (simp add: unpack_I_def u32_ok_def)
  have r: "unpack_s 20 ?d (length pre + 12) = replicate 20 0"
    by (simp add: unpack_s_def)
  have b: "base_parse BeeFacRegion_size ?d (length pre) = Inr ()"
    by (simp add: base_parse_def BeeFacRegion_size_def)
  have i: "BeeFacRegion_init (start_addr f) (end_addr f - start_addr f) (protected_level f) = Inr f"
    using v by (cases f) (simp add: BeeFacRegion_init_def end_addr_def bind_err_def Let_def)
  show ?thesis
    unfolding BeeFacRegion_parse_def b bind_err_def Let_def s e l r
    using i by simp
qed

subsection \<open>Validation of a FAC region\<close>

lemma mask_is_mod: "(x::int) AND ENCR_BLOCK_ADDR_MASK = x mod 1024"
  using take_bit_eq_mod [of 10 x] take_bit_eq_mask [of 10 x]
  by (simp add: ENCR_BLOCK_ADDR_MASK_def BEE_ENCR_BLOCK_SIZE_def mask_eq_exp_minus_1)

text \<open>
  C5. Validation (and so construction) of a FAC region fails with the configuration
  error when both the start and the length are not multiples of 1024; it succeeds when
  at least one of them is a multiple of 1024 and the other invariants hold
  (0 \<le> start < start + length \<le> 0xFFFFFFFF, protected level in 0..3). In particular
  start = length = 0x1001 fails, and start = 0x1000 with length = 0x1001 succeeds.
\<close>

theorem fac_alignment_rule:
  "(s mod 1024 \<noteq> 0 \<and> l mod 1024 \<noteq> 0 \<longrightarrow>
      BeeFacRegion_init s l lvl = Inl (SPSDKError ''Invalid configuration of the instance'') \<and>
      BeeFacRegion_validate \<lparr>start_addr = s, length_fac = l, protected_level = lvl\<rparr>
        = Inl (SPSDKError ''Invalid configuration of the instance''))
   \<and> ((s mod 1024 = 0 \<or> l mod 1024 = 0) \<and> 0 \<le> s \<and> s < s + l \<and> s + l \<le> 0xFFFFFFFF
        \<and> 0 \<le> lvl \<and> lvl \<le> 3 \<longrightarrow>
      BeeFacRegion_init s l lvl = Inr \<lparr>start_addr = s, length_fac = l, protected_level = lvl\<rparr> \<and>
      BeeFacRegion_validate \<lparr>start_addr = s, length_fac = l, protected_level = lvl\<rparr> = Inr ())
   \<and> BeeFacRegion_init 0x1001 0x1001 0 = Inl (SPSDKError ''Invalid configuration of the instance'')
   \<and> BeeFacRegion_init 0x1000 0x1001 0
        = Inr \<lparr>start_addr = 0x1000, length_fac = 0x1001, protected_level = 0\<rparr>"
  by (simp add: BeeFacRegion_init_def BeeFacRegion_validate_def mask_is_mod end_addr_def
      bind_err_def Let_def)

theorem fac_alignment_rule_witness:
  "(0x1001::int) mod 1024 \<noteq> 0
   \<and> BeeFacRegion_init 0x1001 0x1001 2 = Inl (SPSDKError ''Invalid configuration of the instance'')
   \<and> (0x2000::int) mod 1024 = 0
   \<and> BeeFacRegion_init 0x2000 0x1234 3
        = Inr \<lparr>start_addr = 0x2000, length_fac = 0x1234, protected_level = 3\<rparr>"
  using fac_alignment_rule [of "0x1001" "0x1001" 2] fac_alignment_rule [of "0x2000" "0x1234" 3]
  by simp

subsection \<open>Derived addresses of the PRDB\<close>

lemma update_loop_fst: "fst (update_loop fs mn mx) = Min (insert mn (start_addr ` set fs))"
proof (induction fs arbitrary: mn mx)
  case Nil
  then show ?case by simp
next
  case (Cons f fs)
  have "Min (insert (min mn (start_addr f)) (start_addr ` set fs))
        = Min (insert mn (insert (start_addr f) (start_addr ` set fs)))"
    by (cases "set fs = {}") (simp_all add: min.assoc min.commute)
  then show ?case using Cons.IH by simp
qed

lemma update_loop_snd: "snd (update_loop fs mn mx) = Max (insert mx (end_addr ` set fs))"
proof (induction fs arbitrary: mn mx)
  case Nil
  then show ?case by simp
next
  case (Cons f fs)
  have "Max (insert (max mx (end_addr f)) (end_addr ` set fs))
        = Max (insert mx (insert (end_addr f) (end_addr ` set fs)))"
    by (cases "set fs = {}") (simp_all add: max.assoc max.commute)
  then show ?case using Cons.IH by simp
qed

lemma update_eq:
  "BeeProtectRegionBlock_update p =
     p\<lparr>prdb_start_addr :=
          fst (update_loop (fac_regions p) (if fac_regions p = [] then 0 else 0xFFFFFFFF) 0),
       prdb_end_addr :=
          snd (update_loop (fac_regions p) (if fac_regions p = [] then 0 else 0xFFFFFFFF) 0)\<rparr>"
  by (simp add: BeeProtectRegionBlock_update_def fac_count_def split: prod.splits)

lemma update_fields [simp]:
  "fac_regions (BeeProtectRegionBlock_update p) = fac_regions p"
  "mode (BeeProtectRegionBlock_update p) = mode p"
  "lock_options (BeeProtectRegionBlock_update p) = lock_options p"
  "counter (BeeProtectRegionBlock_update p) = counter p"
  by (simp_all add: update_eq)

lemma update_idem [simp]:
  "BeeProtectRegionBlock_update (BeeProtectRegionBlock_update p) = BeeProtectRegionBlock_update p"
  by (simp add: update_eq)

lemma update_ignores_addresses [simp]:
  "BeeProtectRegionBlock_update (p\<lparr>prdb_start_addr := x, prdb_end_addr := y\<rparr>)
     = BeeProtectRegionBlock_update p"
  by (simp add: update_eq)

lemma add_fac_update [simp]:
  "add_fac (BeeProtectRegionBlock_update p) f = add_fac p f"
  by (simp add: add_fac_def update_eq)

lemma add_fac_ignores_addresses [simp]:
  "add_fac (p\<lparr>prdb_start_addr := x, prdb_end_addr := y\<rparr>) f = add_fac p f"
  by (simp add: add_fac_def update_eq)

lemma fold_add_fac:
  "fs \<noteq> [] \<Longrightarrow>
   fold (\<lambda>f q. add_fac q f) fs p
     = BeeProtectRegionBlock_update (p\<lparr>fac_regions := fac_regions p @ fs\<rparr>)"
proof (induction fs arbitrary: p)
  case Nil
  then show ?case by simp
next
  case (Cons f fs)
  show ?case
  proof (cases "fs = []")
    case True
    then show ?thesis by (simp add: add_fac_def)
  next
    case False
    then show ?thesis
      using Cons.IH [OF False, of "add_fac p f"] by (simp add: add_fac_def update_eq)
  qed
qed

text \<open>For valid regions, the derived addresses are the least start and the greatest end.\<close>

lemma validate_regions_all:
  "validate_regions fs = Inr () \<longleftrightarrow> (\<forall>f \<in> set fs. BeeFacRegion_validate f = Inr ())"
  by (induction fs) (auto simp: bind_err_def split: sum.splits)

lemma update_span:
  assumes "fac_regions p \<noteq> []" and "\<forall>f \<in> set (fac_regions p). BeeFacRegion_validate f = Inr ()"
  shows "prdb_start_addr (BeeProtectRegionBlock_update p) = Min (start_addr ` set (fac_regions p))"
    and "prdb_end_addr (BeeProtectRegionBlock_update p) = Max (end_addr ` set (fac_regions p))"
proof -
  let ?S = "start_addr ` set (fac_regions p)" and ?E = "end_addr ` set (fac_regions p)"
  have ne: "?S \<noteq> {}" "?E \<noteq> {}" "finite ?S" "finite ?E" using assms(1) by auto
  have "\<forall>s \<in> ?S. s \<le> 0xFFFFFFFF" "\<forall>e \<in> ?E. 0 \<le> e"
    using assms(2) by (auto simp: BeeFacRegion_validate_def end_addr_def split: if_splits)
  moreover obtain f where "f \<in> set (fac_regions p)"
    using assms(1) by (cases "fac_regions p") auto
  ultimately have b: "Min ?S \<le> 0xFFFFFFFF" "0 \<le> Max ?E"
    using ne by (auto simp: Min_le_iff Max_ge_iff)
  have "Min (insert 0xFFFFFFFF ?S) = min 0xFFFFFFFF (Min ?S)"
    by (rule Min_insert [OF ne(3) ne(1)])
  moreover have "Max (insert 0 ?E) = max 0 (Max ?E)"
    by (rule Max_insert [OF ne(4) ne(2)])
  ultimately have "Min (insert 0xFFFFFFFF ?S) = Min ?S" "Max (insert 0 ?E) = Max ?E"
    using b by linarith+
  then show "prdb_start_addr (BeeProtectRegionBlock_update p) = Min ?S"
    and "prdb_end_addr (BeeProtectRegionBlock_update p) = Max ?E"
    using assms(1) by (simp_all add: update_eq update_loop_fst update_loop_snd)
qed

subsection \<open>Round trip of the PRDB\<close>

lemma export_regions_parse:
  assumes "validate_regions fs = Inr ()"
  shows "\<exists>bs. export_regions fs = Inr bs \<and> length bs = 32 * length fs \<and>
           (\<forall>pre post p. parse_regions (length fs) (pre @ bs @ post) (length pre) p
                           = Inr (fold (\<lambda>f q. add_fac q f) fs p))"
  using assms
proof (induction fs)
  case Nil
  then show ?case by simp
next
  case (Cons f fs)
  from Cons.prems have vf: "BeeFacRegion_validate f = Inr ()" and vfs: "validate_regions fs = Inr ()"
    by (auto simp: bind_err_def split: sum.splits)
  let ?b = "le_bytes 4 (start_addr f) @ le_bytes 4 (end_addr f) @
            le_bytes 4 (protected_level f) @ replicate 20 0"
  from Cons.IH [OF vfs] obtain bs where bs: "export_regions fs = Inr bs" "length bs = 32 * length fs"
    and ih: "\<And>pre post p. parse_regions (length fs) (pre @ bs @ post) (length pre) p
                           = Inr (fold (\<lambda>f q. add_fac q f) fs p)"
    by blast
  have lb: "length ?b = 32" by simp
  have e: "export_regions (f # fs) = Inr (?b @ bs)"
    using fac_export_ok [OF vf] bs(1) by (simp add: bind_err_def)
  have "parse_regions (length (f # fs)) (pre @ (?b @ bs) @ post) (length pre) p
          = Inr (fold (\<lambda>f q. add_fac q f) (f # fs) p)" for pre post p
  proof -
    have 1: "BeeFacRegion_parse (pre @ (?b @ bs) @ post) (length pre) = Inr f"
      using fac_parse_export [OF vf, of pre "bs @ post"] by simp
    have 2: "parse_regions (length fs) ((pre @ ?b) @ bs @ post) (length (pre @ ?b)) (add_fac p f)
               = Inr (fold (\<lambda>f q. add_fac q f) fs (add_fac p f))"
      by (rule ih)
    have 3: "length (pre @ ?b) = length pre + nat BeeFacRegion_size"
      by (simp add: BeeFacRegion_size_def)
    show ?thesis
      using 1 2 unfolding 3 by (simp add: bind_err_def)
  qed
  then show ?case using e bs(2) lb by (intro exI [of _ "?b @ bs"]) simp
qed

lemma prdb_init_counter:
  "c \<noteq> [] \<Longrightarrow> BeeProtectRegionBlock_init g m l (Some c) =
     (\<lparr>prdb_start_addr = 0, prdb_end_addr = 0xFFFFFFFF, mode = m, lock_options = l,
       counter = c, fac_regions = []\<rparr>, g)"
  by (simp add: BeeProtectRegionBlock_init_def)

lemma prdb_validate_facts:
  assumes "BeeProtectRegionBlock_validate q = Inr ()"
  shows "u32_ok (prdb_start_addr q)" "u32_ok (prdb_end_addr q)" "mode q = AesMode_CTR"
    "length (counter q) = 16" "drop 12 (counter q) = [0, 0, 0, 0]"
    "fac_regions q \<noteq> []" "length (fac_regions q) \<le> 4"
    "validate_regions (fac_regions q) = Inr ()"
  using assms
  by (auto simp: BeeProtectRegionBlock_validate_def u32_ok_def fac_count_def FAC_REGIONS_def
      split: if_splits)

lemma prdb_roundtrip:
  assumes v: "BeeProtectRegionBlock_validate (BeeProtectRegionBlock_update p) = Inr ()"
    and lock: "u32_ok (lock_options p)"
  shows "\<exists>bs. BeeProtectRegionBlock_export p = Inr bs \<and> length bs = 256 \<and>
           unpack_s 16 bs 32 = rev (counter p) \<and>
           BeeProtectRegionBlock_parse g bs 0 = Inr (BeeProtectRegionBlock_update p)"
proof -
  let ?q = "BeeProtectRegionBlock_update p"
  note f = prdb_validate_facts [OF v]
  have fr: "fac_regions ?q = fac_regions p" by simp
  from export_regions_parse [OF f(8)] obtain fbs where
    fbs: "export_regions (fac_regions p) = Inr fbs" "length fbs = 32 * length (fac_regions p)"
    and pr: "\<And>pre post r. parse_regions (length (fac_regions p)) (pre @ fbs @ post) (length pre) r
                           = Inr (fold (\<lambda>f q. add_fac q f) (fac_regions p) r)"
    unfolding fr by blast
  let ?n = "int (length (fac_regions p))"
  have n: "u32_ok ?n" "length (fac_regions p) \<le> 4" "fac_regions p \<noteq> []"
    using f(6,7) by (simp_all add: u32_ok_def)
  let ?hdr = "le_bytes 4 TAGL @ le_bytes 4 TAGH @ le_bytes 4 VERSION @ le_bytes 4 ?n @
              le_bytes 4 (prdb_start_addr ?q) @ le_bytes 4 (prdb_end_addr ?q) @
              le_bytes 4 (mode p) @ le_bytes 4 (lock_options p)"
  let ?pre = "?hdr @ rev (counter p) @ replicate 32 0"
  let ?pad = "replicate (256 - (80 + length fbs)) (0::byte)"
  let ?bs = "?pre @ fbs @ ?pad"
  have m: "mode p = AesMode_CTR" "length (counter p) = 16" using f(3,4) by simp_all
  have cs: "u32_ok TAGL" "u32_ok TAGH" "u32_ok VERSION" "u32_ok (mode p)"
    by (simp_all add: u32_ok_def TAGL_def TAGH_def VERSION_def m AesMode_CTR_def)
  have pk: "pack_I [TAGL, TAGH, VERSION, int (fac_count ?q), prdb_start_addr ?q,
                    prdb_end_addr ?q, mode ?q, lock_options ?q] = Inr ?hdr"
    using cs n(1) f(1,2) lock by (simp add: pack_I_def fac_count_def)
  have lpre: "length ?pre = 80" using m by simp
  have lbs: "length ?bs = 256" using lpre fbs(2) n(2) by simp
  have ex: "BeeProtectRegionBlock_export p = Inr ?bs"
    unfolding BeeProtectRegionBlock_export_def Let_def
    using v pk fbs(1) fbs(2) n(2) m
    by (simp add: bind_err_def extend_block_def pack_s_def PRDB_SIZE_def)
  have cnt: "unpack_s 16 ?bs 32 = rev (counter p)"
    using m by (simp add: unpack_s_def)
  have cnt0: "unpack_s 16 ?bs (0 + 32) = rev (counter p)"
    using cnt by simp
  have res: "unpack_s 32 ?bs (0 + 48) = replicate 32 0"
    using m by (simp add: unpack_s_def)
  have u: "unpack_I ?bs 0 = TAGL" "unpack_I ?bs (0 + 4) = TAGH" "unpack_I ?bs (0 + 8) = VERSION"
    "unpack_I ?bs (0 + 12) = ?n" "unpack_I ?bs (0 + 24) = mode p"
    "unpack_I ?bs (0 + 28) = lock_options p"
    using cs n(1) lock
      from_le_le_bytes [of TAGL 4] from_le_le_bytes [of TAGH 4] from_le_le_bytes [of VERSION 4]
      from_le_le_bytes [of ?n 4] from_le_le_bytes [of "mode p" 4]
      from_le_le_bytes [of "lock_options p" 4]
    by (simp_all add: unpack_I_def u32_ok_def)
  have bp: "base_parse (int PRDB_SIZE) ?bs 0 = Inr ()"
    using lbs by (simp add: base_parse_def PRDB_SIZE_def)
  let ?r0 = "\<lparr>prdb_start_addr = 0, prdb_end_addr = 0xFFFFFFFF, mode = mode p,
              lock_options = lock_options p, counter = counter p, fac_regions = []\<rparr>"
  have init: "BeeProtectRegionBlock_init g (mode p) (lock_options p) (Some (rev (rev (counter p))))
                = (?r0, g)"
    using m by (intro prdb_init_counter [THEN trans]) auto
  have regs: "parse_regions (nat ?n) ?bs (0 + PRDB_FORMAT_SIZE) r
                = Inr (fold (\<lambda>f q. add_fac q f) (fac_regions p) r)" for r
    using pr [of ?pre ?pad r] lpre by (simp add: PRDB_FORMAT_SIZE_def)
  have fin: "fold (\<lambda>f q. add_fac q f) (fac_regions p)
               \<lparr>prdb_start_addr = x, prdb_end_addr = y, mode = mode p,
                lock_options = lock_options p, counter = counter p, fac_regions = []\<rparr> = ?q"
    for x y
    using fold_add_fac [OF n(3)] by (cases p) (simp add: update_eq)
  have "BeeProtectRegionBlock_parse g ?bs 0 = Inr ?q"
    unfolding BeeProtectRegionBlock_parse_def bp Let_def u cnt0 res init regs
    using v by (simp add: bind_err_def fin)
  then show ?thesis using ex lbs cnt by blast
qed

subsection \<open>Round trip of the KIB; blocks of data\<close>

lemma kib_roundtrip:
  assumes "BeeKIB_validate b = Inr ()"
  shows "BeeKIB_export b = Inr (kib_key b @ kib_iv b)"
    and "BeeKIB_parse g (kib_key b @ kib_iv b) 0 = Inr b"
  using assms
  by (auto simp: BeeKIB_export_def BeeKIB_parse_def BeeKIB_validate_def BeeKIB_init_def
      or_random_def KEY_LEN_def BeeKIB_size_def base_parse_def bind_err_def pack_s_def
      unpack_s_def Let_def split: if_splits)


lemma split_data_Nil [simp]: "split_data [] n = []"
  by (subst split_data.simps) simp

lemma split_data_step:
  "d \<noteq> [] \<Longrightarrow> 0 < n \<Longrightarrow> split_data d n = take n d # split_data (drop n d) n"
  by (subst split_data.simps) simp

lemma mod0_le: "length d mod n = 0 \<Longrightarrow> d \<noteq> [] \<Longrightarrow> 0 < n \<Longrightarrow> n \<le> length d"
  by (cases "length d < n") auto

lemma mod0_drop: "length d mod n = 0 \<Longrightarrow> length (drop n d) mod n = 0"
  by (cases "n \<le> length d") (simp_all add: le_mod_geq)

lemma split_data_block:
  "length b = n \<Longrightarrow> 0 < n \<Longrightarrow> split_data (b @ r) n = b # split_data r n"
  by (subst split_data.simps) auto

lemma split_data_concat:
  "0 < n \<Longrightarrow> \<forall>b \<in> set bs. length b = n \<Longrightarrow> split_data (concat bs) n = bs"
  by (induction bs) (simp_all add: split_data_block)

lemma concat_split_data: "concat (split_data d n) = (if n = 0 then [] else d)"
proof (induction d n rule: split_data.induct)
  case (1 d n)
  show ?case
  proof (cases "d = [] \<or> n = 0")
    case True
    then show ?thesis by (subst split_data.simps) auto
  next
    case False
    then show ?thesis using 1 by (subst split_data.simps) simp
  qed
qed

lemma split_data_lengths:
  "length d mod n = 0 \<Longrightarrow> 0 < n \<Longrightarrow> b \<in> set (split_data d n) \<Longrightarrow> length b = n"
proof (induction d n rule: split_data.induct)
  case (1 d n)
  show ?case
  proof (cases "d = []")
    case True
    then show ?thesis using 1(4) by simp
  next
    case False
    have le: "n \<le> length d" using mod0_le [OF 1(2) False 1(3)] .
    have "b = take n d \<or> b \<in> set (split_data (drop n d) n)"
      using 1(4) split_data_step [OF False 1(3)] by simp
    then show ?thesis
    proof
      assume "b = take n d"
      then show ?thesis using le by simp
    next
      assume "b \<in> set (split_data (drop n d) n)"
      then show ?thesis using 1(1) False 1(3) mod0_drop [OF 1(2)] by simp
    qed
  qed
qed

lemma length_split_data:
  "length d mod n = 0 \<Longrightarrow> 0 < n \<Longrightarrow> length (split_data d n) = length d div n"
proof (induction d n rule: split_data.induct)
  case (1 d n)
  show ?case
  proof (cases "d = []")
    case True
    then show ?thesis by simp
  next
    case False
    have le: "n \<le> length d" using mod0_le [OF 1(2) False 1(3)] .
    have "length (split_data (drop n d) n) = length (drop n d) div n"
      using 1(1) False 1(3) mod0_drop [OF 1(2)] by simp
    then show ?thesis
      using 1(3) le by (simp add: split_data_step [OF False 1(3)] le_div_geq)
  qed
qed

lemma length_concat_blocks:
  "\<forall>b \<in> set bs. length b = n \<Longrightarrow> length (concat bs) = n * length bs"
  by (induction bs) simp_all

subsection \<open>Modes of operation\<close>

lemma length_xor_bytes [simp]: "length (xor_bytes a b) = min (length a) (length b)"
  by (simp add: xor_bytes_def)

lemma xor_bytes_cancel: "length a \<le> length b \<Longrightarrow> xor_bytes (xor_bytes a b) b = a"
proof (induction a arbitrary: b)
  case Nil
  then show ?case by (simp add: xor_bytes_def)
next
  case (Cons x a)
  then obtain y b' where b: "b = y # b'" by (cases b) auto
  have "(x XOR y) XOR y = x" by (simp add: xor.assoc)
  then show ?case using Cons b by (simp add: xor_bytes_def)
qed

lemma ecb_blocks_length:
  assumes "block_cipher_ok E D" "aes_key_ok k" "\<forall>b \<in> set bs. length b = 16"
  shows "\<forall>c \<in> set (map (E k) bs). length c = 16"
  using assms by (auto simp: block_cipher_ok_def)

lemma ecb_blocks_inverse:
  assumes "block_cipher_ok E D" "aes_key_ok k" "\<forall>b \<in> set bs. length b = 16"
  shows "map (D k) (map (E k) bs) = bs"
  using assms by (induction bs) (auto simp: block_cipher_ok_def)

lemma aes_ecb_roundtrip:
  assumes ok: "block_cipher_ok E D" and k: "aes_key_ok k" and d: "length d mod 16 = 0"
  shows "\<exists>c. aes_ecb E k d = Inr c \<and> length c = length d \<and> aes_ecb D k c = Inr d"
proof -
  let ?bs = "split_data d 16"
  let ?cs = "map (E k) ?bs"
  have bl: "\<forall>b \<in> set ?bs. length b = 16" using split_data_lengths [OF d] by simp
  have cl: "\<forall>c \<in> set ?cs. length c = 16" by (rule ecb_blocks_length [OF ok k bl])
  have e: "aes_ecb E k d = Inr (concat ?cs)" using k d by (simp add: aes_ecb_def)
  have "16 * (length d div 16) = length d" using d by presburger
  then have l: "length (concat ?cs) = length d"
    using length_concat_blocks [OF cl] length_split_data [OF d] by simp
  have "split_data (concat ?cs) 16 = ?cs" using split_data_concat [OF _ cl] by simp
  then have "concat (map (D k) (split_data (concat ?cs) 16)) = d"
    using ecb_blocks_inverse [OF ok k bl] by (simp add: concat_split_data)
  then have "aes_ecb D k (concat ?cs) = Inr d"
    using k l d by (simp add: aes_ecb_def)
  then show ?thesis using e l by blast
qed

lemma length_cbc_enc_blocks [simp]: "length (cbc_enc_blocks E k iv bs) = length bs"
  by (induction bs arbitrary: iv) (simp_all add: Let_def)

lemma cbc_blocks_length:
  assumes "block_cipher_ok E D" "aes_key_ok k"
  shows "length iv = 16 \<Longrightarrow> \<forall>b \<in> set bs. length b = 16
     \<Longrightarrow> \<forall>c \<in> set (cbc_enc_blocks E k iv bs). length c = 16"
proof (induction bs arbitrary: iv)
  case Nil
  then show ?case by simp
next
  case (Cons b bs)
  have "length (xor_bytes b iv) = 16" using Cons.prems by simp
  then have c: "length (E k (xor_bytes b iv)) = 16"
    using assms by (simp add: block_cipher_ok_def)
  then show ?case using Cons.IH [OF c] Cons.prems by (simp add: Let_def)
qed

lemma cbc_blocks_inverse:
  assumes "block_cipher_ok E D" "aes_key_ok k"
  shows "length iv = 16 \<Longrightarrow> \<forall>b \<in> set bs. length b = 16
     \<Longrightarrow> cbc_dec_blocks D k iv (cbc_enc_blocks E k iv bs) = bs"
proof (induction bs arbitrary: iv)
  case Nil
  then show ?case by simp
next
  case (Cons b bs)
  have x: "length (xor_bytes b iv) = 16" using Cons.prems by simp
  then have c: "length (E k (xor_bytes b iv)) = 16" "D k (E k (xor_bytes b iv)) = xor_bytes b iv"
    using assms by (simp_all add: block_cipher_ok_def)
  have "xor_bytes (xor_bytes b iv) iv = b"
    using Cons.prems by (intro xor_bytes_cancel) simp
  then show ?case using Cons.IH [OF c(1)] Cons.prems c(2) by (simp add: Let_def)
qed

lemma aes_cbc_roundtrip:
  assumes ok: "block_cipher_ok E D" and k: "aes_key_ok k" and iv: "length iv = 16"
    and d: "length d mod 16 = 0"
  shows "\<exists>c. aes_cbc_encrypt E k iv d = Inr c \<and> length c = length d \<and>
              aes_cbc_decrypt D k iv c = Inr d"
proof -
  let ?bs = "split_data d 16"
  let ?cs = "cbc_enc_blocks E k iv ?bs"
  have bl: "\<forall>b \<in> set ?bs. length b = 16" using split_data_lengths [OF d] by simp
  have cl: "\<forall>c \<in> set ?cs. length c = 16" by (rule cbc_blocks_length [OF ok k iv bl])
  have e: "aes_cbc_encrypt E k iv d = Inr (concat ?cs)"
    using k iv d by (simp add: aes_cbc_encrypt_def)
  have "16 * (length d div 16) = length d" using d by presburger
  then have l: "length (concat ?cs) = length d"
    using length_concat_blocks [OF cl] length_split_data [OF d] by simp
  have "split_data (concat ?cs) 16 = ?cs" using split_data_concat [OF _ cl] by simp
  then have "concat (cbc_dec_blocks D k iv (split_data (concat ?cs) 16)) = d"
    using cbc_blocks_inverse [OF ok k iv bl] by (simp add: concat_split_data)
  then have "aes_cbc_decrypt D k iv (concat ?cs) = Inr d"
    using k iv l d by (simp add: aes_cbc_decrypt_def)
  then show ?thesis using e l by blast
qed

lemma block_cipher_ok_fn: "block_cipher_ok E D \<Longrightarrow> block_fn_ok E"
  by (simp add: block_cipher_ok_def block_fn_ok_def)

lemma aes_ecb_length:
  assumes ok: "block_fn_ok F" and k: "aes_key_ok k" and d: "length d mod 16 = 0"
  shows "\<exists>c. aes_ecb F k d = Inr c \<and> length c = length d"
proof -
  let ?cs = "map (F k) (split_data d 16)"
  have "\<forall>b \<in> set (split_data d 16). length b = 16" using split_data_lengths [OF d] by simp
  then have cl: "\<forall>c \<in> set ?cs. length c = 16" using ok k by (auto simp: block_fn_ok_def)
  have "16 * (length d div 16) = length d" using d by presburger
  then have "length (concat ?cs) = length d"
    using length_concat_blocks [OF cl] length_split_data [OF d] by simp
  then show ?thesis using k d by (simp add: aes_ecb_def)
qed

lemma cbc_blocks_length_fn:
  assumes "block_fn_ok E" "aes_key_ok k"
  shows "length iv = 16 \<Longrightarrow> \<forall>b \<in> set bs. length b = 16
     \<Longrightarrow> \<forall>c \<in> set (cbc_enc_blocks E k iv bs). length c = 16"
proof (induction bs arbitrary: iv)
  case Nil
  then show ?case by simp
next
  case (Cons b bs)
  have "length (xor_bytes b iv) = 16" using Cons.prems by simp
  then have c: "length (E k (xor_bytes b iv)) = 16"
    using assms by (simp add: block_fn_ok_def)
  then show ?case using Cons.IH [OF c] Cons.prems by (simp add: Let_def)
qed

lemma aes_cbc_encrypt_length:
  assumes ok: "block_fn_ok E" and k: "aes_key_ok k" and iv: "length iv = 16"
    and d: "length d mod 16 = 0"
  shows "\<exists>c. aes_cbc_encrypt E k iv d = Inr c \<and> length c = length d"
proof -
  let ?cs = "cbc_enc_blocks E k iv (split_data d 16)"
  have "\<forall>b \<in> set (split_data d 16). length b = 16" using split_data_lengths [OF d] by simp
  then have cl: "\<forall>c \<in> set ?cs. length c = 16" by (rule cbc_blocks_length_fn [OF ok k iv])
  have "16 * (length d div 16) = length d" using d by presburger
  then have "length (concat ?cs) = length d"
    using length_concat_blocks [OF cl] length_split_data [OF d] by simp
  then show ?thesis using k iv d by (simp add: aes_cbc_encrypt_def)
qed

subsection \<open>Layout and round trip of the region header\<close>

lemma header_validate_facts:
  assumes "BeeRegionHeader_validate h = Inr ()"
  shows "BeeKIB_validate (kib h) = Inr ()" "BeeProtectRegionBlock_validate (prdb h) = Inr ()"
    "length (sw_key h) = 16" "length (kib_key (kib h)) = 16" "length (kib_iv (kib h)) = 16"
  using assms
  by (auto simp: BeeRegionHeader_validate_def BeeKIB_validate_def KEY_LEN_def bind_err_def
      split: sum.splits if_splits)

lemma header_update_fields [simp]:
  "prdb (BeeRegionHeader_update h) = BeeProtectRegionBlock_update (prdb h)"
  "sw_key (BeeRegionHeader_update h) = sw_key h"
  "kib (BeeRegionHeader_update h) = kib h"
  by (simp_all add: BeeRegionHeader_update_def)

lemma prdb_export_update [simp]:
  "BeeProtectRegionBlock_export (BeeProtectRegionBlock_update p) = BeeProtectRegionBlock_export p"
  by (simp add: BeeProtectRegionBlock_export_def)

lemma header_export_layout:
  assumes ok: "block_fn_ok E"
    and v: "BeeRegionHeader_validate (BeeRegionHeader_update h) = Inr ()"
    and lock: "u32_ok (lock_options (prdb h))"
  shows "\<exists>kb ekib pb eprdb.
           BeeKIB_export (kib h) = Inr kb \<and> length kb = 32 \<and>
           aes_ecb E (sw_key h) kb = Inr ekib \<and> length ekib = 32 \<and>
           BeeProtectRegionBlock_export (prdb h) = Inr pb \<and> length pb = 256 \<and>
           aes_cbc_encrypt E (kib_key (kib h)) (kib_iv (kib h)) pb = Inr eprdb \<and>
           length eprdb = 256 \<and>
           BeeRegionHeader_export E h = Inr (ekib @ replicate 96 0 @ eprdb @ replicate 128 0)"
proof -
  note f = header_validate_facts [OF v, simplified]
  have kb: "BeeKIB_export (kib h) = Inr (kib_key (kib h) @ kib_iv (kib h))"
    by (rule kib_roundtrip(1) [OF f(1)])
  let ?kb = "kib_key (kib h) @ kib_iv (kib h)"
  have lkb: "length ?kb = 32" using f(4,5) by simp
  have sk: "aes_key_ok (sw_key h)" "aes_key_ok (kib_key (kib h))"
    using f(3,4) by (simp_all add: aes_key_ok_def)
  from aes_ecb_length [OF ok sk(1), of ?kb] lkb obtain ekib where
    ekib: "aes_ecb E (sw_key h) ?kb = Inr ekib" "length ekib = 32" by auto
  from prdb_roundtrip [OF f(2) lock] obtain pb where
    pb: "BeeProtectRegionBlock_export (prdb h) = Inr pb" "length pb = 256" by blast
  from aes_cbc_encrypt_length [OF ok sk(2) f(5), of pb] pb(2) obtain eprdb where
    eprdb: "aes_cbc_encrypt E (kib_key (kib h)) (kib_iv (kib h)) pb = Inr eprdb"
      "length eprdb = 256" by auto
  have "BeeRegionHeader_export E h = Inr (ekib @ replicate 96 0 @ eprdb @ replicate 128 0)"
    unfolding BeeRegionHeader_export_def Let_def
    using v kb ekib pb eprdb
    by (simp add: bind_err_def extend_block_def PRDB_OFFSET_def HEADER_SIZE_def)
  then show ?thesis using kb lkb ekib pb eprdb by blast
qed

lemma header_roundtrip:
  assumes ok: "block_cipher_ok E D"
    and v: "BeeRegionHeader_validate (BeeRegionHeader_update h) = Inr ()"
    and lock: "u32_ok (lock_options (prdb h))"
  shows "\<exists>bs. BeeRegionHeader_export E h = Inr bs \<and> length bs = 512 \<and>
           BeeRegionHeader_parse g D bs 0 (sw_key h) = Inr (BeeRegionHeader_update h)"
proof -
  note f = header_validate_facts [OF v, simplified]
  from header_export_layout [OF block_cipher_ok_fn [OF ok] v lock]
  obtain kb ekib pb eprdb where
    kb: "BeeKIB_export (kib h) = Inr kb" "length kb = 32"
    and ekib: "aes_ecb E (sw_key h) kb = Inr ekib" "length ekib = 32"
    and pb: "BeeProtectRegionBlock_export (prdb h) = Inr pb" "length pb = 256"
    and eprdb: "aes_cbc_encrypt E (kib_key (kib h)) (kib_iv (kib h)) pb = Inr eprdb"
      "length eprdb = 256"
    and ex: "BeeRegionHeader_export E h = Inr (ekib @ replicate 96 0 @ eprdb @ replicate 128 0)"
    by blast
  let ?bs = "ekib @ replicate 96 0 @ eprdb @ replicate 128 0"
  have lbs: "length ?bs = 512" using ekib(2) eprdb(2) by simp
  have sk: "aes_key_ok (sw_key h)" "aes_key_ok (kib_key (kib h))"
    using f(3,4) by (simp_all add: aes_key_ok_def)
  have kbe: "kb = kib_key (kib h) @ kib_iv (kib h)"
    using kb(1) kib_roundtrip(1) [OF f(1)] by simp
  have d1: "aes_ecb D (sw_key h) ekib = Inr kb"
    using aes_ecb_roundtrip [OF ok sk(1), of kb] kb(2) ekib(1) by auto
  have d2: "aes_cbc_decrypt D (kib_key (kib h)) (kib_iv (kib h)) eprdb = Inr pb"
    using aes_cbc_roundtrip [OF ok sk(2) f(5), of pb] pb(2) eprdb(1) by auto
  have p1: "BeeKIB_parse g kb 0 = Inr (kib h)"
    unfolding kbe by (rule kib_roundtrip(2) [OF f(1)])
  have p2: "BeeProtectRegionBlock_parse g pb 0 = Inr (BeeProtectRegionBlock_update (prdb h))"
    using prdb_roundtrip [OF f(2) lock, of g] pb(1) by auto
  have s1: "slice ?bs 0 (0 + nat BeeKIB_size) = ekib"
    using ekib(2) by (simp add: slice_def BeeKIB_size_def)
  have s2: "slice ?bs (0 + PRDB_OFFSET) (0 + PRDB_OFFSET + PRDB_SIZE) = eprdb"
    using ekib(2) eprdb(2) by (simp add: slice_def PRDB_OFFSET_def PRDB_SIZE_def)
  have bp: "base_parse (int HEADER_SIZE) ?bs 0 = Inr ()"
    using lbs by (simp add: base_parse_def HEADER_SIZE_def)
  have init: "fst (BeeRegionHeader_init g (Some (BeeProtectRegionBlock_update (prdb h)))
                     (Some (sw_key h)) (Some (kib h))) = BeeRegionHeader_update h"
    by (cases h) (simp add: BeeRegionHeader_init_def BeeRegionHeader_update_def)
  have "BeeRegionHeader_parse g D ?bs 0 (sw_key h) = Inr (BeeRegionHeader_update h)"
    unfolding BeeRegionHeader_parse_def bp s1 s2
    using f(3) d1 d2 p1 p2 v by (simp add: bind_err_def Let_def init)
  then show ?thesis using ex lbs by blast
qed

subsection \<open>The codecs on valid objects\<close>

lemma toy_block_ok: "block_cipher_ok toy_block toy_block"
  by (simp add: block_cipher_ok_def toy_block_def xor.assoc comp_def)

lemma example_validates:
  "BeeFacRegion_validate example_fac = Inr ()"
  "BeeKIB_validate example_kib = Inr ()"
  "BeeProtectRegionBlock_validate (BeeProtectRegionBlock_update example_prdb) = Inr ()"
  "BeeRegionHeader_validate (BeeRegionHeader_update example_header) = Inr ()"
  "u32_ok (lock_options example_prdb)"
  "BeeProtectRegionBlock_update example_prdb = example_prdb"
  "BeeRegionHeader_update example_header = example_header"
  by (simp_all add: example_fac_def example_kib_def example_prdb_def example_header_def
      example_key_def example_counter_def BeeFacRegion_validate_def BeeKIB_validate_def
      BeeProtectRegionBlock_validate_def BeeRegionHeader_validate_def
      BeeRegionHeader_update_def update_eq ENCR_BLOCK_ADDR_MASK_def BEE_ENCR_BLOCK_SIZE_def
      end_addr_def KEY_LEN_def AesMode_CTR_def fac_count_def FAC_REGIONS_def bind_err_def
      u32_ok_def)

lemma example_header_fields:
  "sw_key example_header = example_key" "prdb example_header = example_prdb"
  "kib example_header = example_kib"
  by (simp_all add: example_header_def)

text \<open>
  C1. Round trip of the binary codecs. For every valid FAC region, key info block, PRDB
  and region header, \<open>export\<close> succeeds and \<open>parse\<close> of the exported bytes returns the
  object again (for the header, parsed with the software key of the object). \<open>export\<close>
  of a PRDB or of a header first brings the derived addresses up to date and leaves the
  object so; the parsed object equals that object, which is the object itself when its
  addresses were up to date already. A PRDB is valid when validation accepts it with its
  addresses up to date and its lock options are a 32-bit number.
\<close>

theorem codec_roundtrip:
  "(BeeFacRegion_validate f = Inr () \<longrightarrow>
      (\<exists>bs. BeeFacRegion_export f = Inr bs \<and> BeeFacRegion_parse bs 0 = Inr f))
   \<and> (BeeKIB_validate b = Inr () \<longrightarrow>
      (\<exists>bs. BeeKIB_export b = Inr bs \<and> BeeKIB_parse g bs 0 = Inr b))
   \<and> (BeeProtectRegionBlock_validate (BeeProtectRegionBlock_update p) = Inr ()
        \<and> u32_ok (lock_options p) \<longrightarrow>
      (\<exists>bs. BeeProtectRegionBlock_export p = Inr bs \<and>
            BeeProtectRegionBlock_parse g bs 0 = Inr (BeeProtectRegionBlock_update p)))
   \<and> (block_cipher_ok E D \<and> BeeRegionHeader_validate (BeeRegionHeader_update h) = Inr ()
        \<and> u32_ok (lock_options (prdb h)) \<longrightarrow>
      (\<exists>bs. BeeRegionHeader_export E h = Inr bs \<and>
            BeeRegionHeader_parse g D bs 0 (sw_key h) = Inr (BeeRegionHeader_update h)))"
proof (intro conjI impI)
  assume v: "BeeFacRegion_validate f = Inr ()"
  show "\<exists>bs. BeeFacRegion_export f = Inr bs \<and> BeeFacRegion_parse bs 0 = Inr f"
    using fac_export_ok [OF v] fac_parse_export [OF v, of "[]" "[]"] by simp
next
  assume v: "BeeKIB_validate b = Inr ()"
  show "\<exists>bs. BeeKIB_export b = Inr bs \<and> BeeKIB_parse g bs 0 = Inr b"
    using kib_roundtrip [OF v] by blast
next
  assume "BeeProtectRegionBlock_validate (BeeProtectRegionBlock_update p) = Inr ()
            \<and> u32_ok (lock_options p)"
  then show "\<exists>bs. BeeProtectRegionBlock_export p = Inr bs \<and>
            BeeProtectRegionBlock_parse g bs 0 = Inr (BeeProtectRegionBlock_update p)"
    using prdb_roundtrip [of p g] by blast
next
  assume "block_cipher_ok E D \<and> BeeRegionHeader_validate (BeeRegionHeader_update h) = Inr ()
            \<and> u32_ok (lock_options (prdb h))"
  then show "\<exists>bs. BeeRegionHeader_export E h = Inr bs \<and>
            BeeRegionHeader_parse g D bs 0 (sw_key h) = Inr (BeeRegionHeader_update h)"
    using header_roundtrip [of E D h g] by blast
qed

theorem codec_roundtrip_witness:
  "BeeFacRegion_validate example_fac = Inr ()
   \<and> (\<exists>bs. BeeFacRegion_export example_fac = Inr bs \<and> BeeFacRegion_parse bs 0 = Inr example_fac)
   \<and> BeeKIB_validate example_kib = Inr ()
   \<and> (\<exists>bs. BeeKIB_export example_kib = Inr bs \<and> BeeKIB_parse tape_zero bs 0 = Inr example_kib)
   \<and> BeeProtectRegionBlock_validate example_prdb = Inr ()
   \<and> u32_ok (lock_options example_prdb)
   \<and> (\<exists>bs. BeeProtectRegionBlock_export example_prdb = Inr bs \<and>
            BeeProtectRegionBlock_parse tape_zero bs 0 = Inr example_prdb)
   \<and> block_cipher_ok toy_block toy_block
   \<and> BeeRegionHeader_validate example_header = Inr ()
   \<and> (\<exists>bs. BeeRegionHeader_export toy_block example_header = Inr bs \<and>
            BeeRegionHeader_parse tape_zero toy_block bs 0 example_key = Inr example_header)"
  using codec_roundtrip [where f = example_fac and b = example_kib and p = example_prdb
      and E = toy_block and D = toy_block and h = example_header and g = tape_zero]
    example_validates toy_block_ok example_header_fields
  by simp

text \<open>
  C3. Wire layout of the region header. For every valid header (and a block cipher that
  maps 16-byte blocks to 16-byte blocks), \<open>export\<close> returns exactly 512 bytes: bytes
  [0:32] are the AES-ECB encryption under the software key of the 32-byte KIB encoding,
  bytes [32:128] are zero, bytes [128:384] are the AES-CBC encryption under the KIB key
  and vector of the 256-byte PRDB encoding, and bytes [384:512] are zero.
\<close>

theorem header_wire_layout:
  assumes "block_fn_ok E"
    and "BeeRegionHeader_validate (BeeRegionHeader_update h) = Inr ()"
    and "u32_ok (lock_options (prdb h))"
  shows "\<exists>bs kib_data ekib prdb_data eprdb.
           BeeRegionHeader_export E h = Inr bs \<and> length bs = 512 \<and>
           BeeKIB_export (kib h) = Inr kib_data \<and> length kib_data = 32 \<and>
           aes_ecb E (sw_key h) kib_data = Inr ekib \<and>
           slice bs 0 32 = ekib \<and>
           slice bs 32 128 = replicate 96 0 \<and>
           BeeProtectRegionBlock_export (prdb h) = Inr prdb_data \<and> length prdb_data = 256 \<and>
           aes_cbc_encrypt E (kib_key (kib h)) (kib_iv (kib h)) prdb_data = Inr eprdb \<and>
           slice bs 128 384 = eprdb \<and>
           slice bs 384 512 = replicate 128 0"
proof -
  from header_export_layout [OF assms]
  obtain kb ekib pb eprdb where
    kb: "BeeKIB_export (kib h) = Inr kb" "length kb = 32"
    and ekib: "aes_ecb E (sw_key h) kb = Inr ekib" "length ekib = 32"
    and pb: "BeeProtectRegionBlock_export (prdb h) = Inr pb" "length pb = 256"
    and eprdb: "aes_cbc_encrypt E (kib_key (kib h)) (kib_iv (kib h)) pb = Inr eprdb"
      "length eprdb = 256"
    and ex: "BeeRegionHeader_export E h = Inr (ekib @ replicate 96 0 @ eprdb @ replicate 128 0)"
    by blast
  let ?bs = "ekib @ replicate 96 0 @ eprdb @ replicate 128 0"
  have "length ?bs = 512" "slice ?bs 0 32 = ekib" "slice ?bs 32 128 = replicate 96 0"
    "slice ?bs 128 384 = eprdb" "slice ?bs 384 512 = replicate 128 0"
    using ekib(2) eprdb(2) by (simp_all add: slice_def)
  then show ?thesis using kb ekib(1) pb eprdb(1) ex by blast
qed

theorem header_wire_layout_witness:
  "block_fn_ok toy_block
   \<and> BeeRegionHeader_validate (BeeRegionHeader_update example_header) = Inr ()
   \<and> u32_ok (lock_options (prdb example_header))
   \<and> (\<exists>bs kib_data ekib prdb_data eprdb.
           BeeRegionHeader_export toy_block example_header = Inr bs \<and> length bs = 512 \<and>
           BeeKIB_export example_kib = Inr kib_data \<and> length kib_data = 32 \<and>
           aes_ecb toy_block example_key kib_data = Inr ekib \<and>
           slice bs 0 32 = ekib \<and>
           slice bs 32 128 = replicate 96 0 \<and>
           BeeProtectRegionBlock_export example_prdb = Inr prdb_data \<and> length prdb_data = 256 \<and>
           aes_cbc_encrypt toy_block example_key example_counter prdb_data = Inr eprdb \<and>
           slice bs 128 384 = eprdb \<and>
           slice bs 384 512 = replicate 128 0)"
proof -
  have 1: "block_fn_ok toy_block" by (rule block_cipher_ok_fn [OF toy_block_ok])
  have 2: "BeeRegionHeader_validate (BeeRegionHeader_update example_header) = Inr ()"
    by (rule example_validates(4))
  have 3: "u32_ok (lock_options (prdb example_header))"
    using example_validates(5) by (simp add: example_header_fields)
  show ?thesis
    using header_wire_layout [OF 1 2 3] 1 2 3
    by (simp add: example_header_fields example_kib_def)
qed

text \<open>
  C6. The counter on the wire. For every valid PRDB, \<open>export\<close> writes the 16 bytes of
  the counter in reversed order at bytes [32:48) of the 256-byte encoding, and \<open>parse\<close>
  reverses those bytes again: the counter of the parsed PRDB is the original counter.
\<close>

theorem counter_wire_quirk:
  assumes "BeeProtectRegionBlock_validate (BeeProtectRegionBlock_update p) = Inr ()"
    and "u32_ok (lock_options p)"
  shows "\<exists>bs q. BeeProtectRegionBlock_export p = Inr bs \<and> length bs = 256 \<and>
           slice bs 32 48 = rev (counter p) \<and>
           BeeProtectRegionBlock_parse g bs 0 = Inr q \<and>
           counter q = rev (slice bs 32 48) \<and> counter q = counter p"
proof -
  from prdb_roundtrip [OF assms, of g] obtain bs where
    bs: "BeeProtectRegionBlock_export p = Inr bs" "length bs = 256"
      "unpack_s 16 bs 32 = rev (counter p)"
      "BeeProtectRegionBlock_parse g bs 0 = Inr (BeeProtectRegionBlock_update p)"
    by blast
  have "slice bs 32 48 = rev (counter p)" using bs(3) by (simp add: slice_def unpack_s_def)
  then show ?thesis using bs by (intro exI [of _ bs] exI [of _ "BeeProtectRegionBlock_update p"]) simp
qed

theorem counter_wire_quirk_witness:
  "BeeProtectRegionBlock_validate (BeeProtectRegionBlock_update example_prdb) = Inr ()
   \<and> u32_ok (lock_options example_prdb)
   \<and> (\<exists>bs q. BeeProtectRegionBlock_export example_prdb = Inr bs \<and> length bs = 256 \<and>
           slice bs 32 48 = [0, 0, 0, 0, 12, 11, 10, 9, 8, 7, 6, 5, 4, 3, 2, 1] \<and>
           BeeProtectRegionBlock_parse tape_zero bs 0 = Inr q \<and>
           counter q = [1, 2, 3, 4, 5, 6, 7, 8, 9, 10, 11, 12, 0, 0, 0, 0])"
proof -
  have c: "counter example_prdb = [1, 2, 3, 4, 5, 6, 7, 8, 9, 10, 11, 12, 0, 0, 0, 0]"
    by (simp add: example_prdb_def example_counter_def)
  obtain bs q where "BeeProtectRegionBlock_export example_prdb = Inr bs" "length bs = 256"
    "slice bs 32 48 = rev (counter example_prdb)"
    "BeeProtectRegionBlock_parse tape_zero bs 0 = Inr q" "counter q = counter example_prdb"
    using counter_wire_quirk [OF example_validates(3) example_validates(5), of tape_zero]
    by blast
  then show ?thesis using example_validates(3) example_validates(5) unfolding c by auto
qed

subsection \<open>\<open>encrypt_block\<close> outside the regions\<close>

lemma encrypt_block_loop_outside:
  "\<forall>fac \<in> set fs. \<not> (start_addr fac \<le> a \<and> a < end_addr fac)
     \<Longrightarrow> encrypt_block_loop g E p k a d fs = Inr (d, g)"
  by (induction fs) auto

lemma gap_prdb_facts:
  "mode gap_prdb = AesMode_CTR"
  "is_inside_region gap_prdb 0x400"
  "\<not> is_inside_region gap_prdb 0xC00"
  "\<forall>fac \<in> set (fac_regions gap_prdb). \<not> (start_addr fac \<le> 0x400 \<and> 0x400 < end_addr fac)"
  "\<forall>fac \<in> set (fac_regions gap_prdb). \<not> (start_addr fac \<le> 0xC00 \<and> 0xC00 < end_addr fac)"
  "BeeProtectRegionBlock_update gap_prdb = gap_prdb"
  "fac_regions gap_prdb \<noteq> []"
  "\<forall>f \<in> set (fac_regions gap_prdb). BeeFacRegion_validate f = Inr ()"
  by (simp_all add: gap_prdb_def AesMode_CTR_def is_inside_region_def end_addr_def update_eq
      BeeFacRegion_validate_def ENCR_BLOCK_ADDR_MASK_def BEE_ENCR_BLOCK_SIZE_def)

text \<open>
  C2. Pass-through outside the FAC regions. For a PRDB in mode CTR, a 16-byte key and a
  block of at most 1024 bytes whose start address lies in none of the FAC regions of the
  PRDB, \<open>encrypt_block\<close> returns the block unchanged (and reads nothing from the random
  source); calling it again on the result, any number of times, returns the block
  unchanged.
\<close>

theorem encrypt_block_pass_through:
  assumes "mode p = AesMode_CTR" and "length k = 16" and "length d \<le> 1024"
    and "\<forall>fac \<in> set (fac_regions p). \<not> (start_addr fac \<le> a \<and> a < end_addr fac)"
  shows "encrypt_block g E p k a d = Inr (d, g)
       \<and> encrypt_block_times n g E p k a d = Inr (d, g)"
proof -
  have 1: "encrypt_block g E p k a d = Inr (d, g)"
    using assms encrypt_block_loop_outside [OF assms(4)]
    by (simp add: encrypt_block_def BEE_ENCR_BLOCK_SIZE_def)
  have "encrypt_block_times n g E p k a d = Inr (d, g)"
    by (induction n) (simp_all add: 1 bind_err_def)
  then show ?thesis using 1 by simp
qed

theorem encrypt_block_pass_through_witness:
  "mode gap_prdb = AesMode_CTR \<and> length example_key = 16 \<and> length [1, 2, 3 :: byte] \<le> 1024
   \<and> encrypt_block tape_ones toy_block gap_prdb example_key 0x400 [1, 2, 3]
        = Inr ([1, 2, 3], tape_ones)
   \<and> encrypt_block_times 5 tape_ones toy_block gap_prdb example_key 0xC00 [1, 2, 3]
        = Inr ([1, 2, 3], tape_ones)"
proof -
  have k: "length example_key = 16" by (simp add: example_key_def)
  have d: "length [1, 2, 3 :: byte] \<le> 1024" by simp
  show ?thesis
    using encrypt_block_pass_through [OF gap_prdb_facts(1) k d gap_prdb_facts(4), of tape_ones toy_block 5]
      encrypt_block_pass_through [OF gap_prdb_facts(1) k d gap_prdb_facts(5), of tape_ones toy_block 5]
      gap_prdb_facts(1) k
    by simp
qed

text \<open>
  C9. The membership test of \<open>encrypt_block\<close> is the overall span from the least region
  start to the greatest region end, not membership in a single region. With a start
  address inside the span but in no region (a gap), the mode and the key length are
  still checked: a mode other than CTR or a key that is not 16 bytes long raises there.
  With a start address outside the span the block is returned unchanged, whatever the
  key and the mode.
\<close>

theorem gap_checks_mode_and_key:
  assumes "length d \<le> 1024"
  shows "(fac_regions p \<noteq> [] \<and> (\<forall>f \<in> set (fac_regions p). BeeFacRegion_validate f = Inr ()) \<longrightarrow>
            is_inside_region (BeeProtectRegionBlock_update p) a
              = (Min (start_addr ` set (fac_regions p)) \<le> a
                 \<and> a < Max (end_addr ` set (fac_regions p))))
       \<and> (is_inside_region p a \<and> mode p \<noteq> AesMode_CTR \<longrightarrow>
            encrypt_block g E p k a d
              = Inl (SPSDKError ''only AES/CTR encryption mode supported now''))
       \<and> (is_inside_region p a \<and> mode p = AesMode_CTR \<and> length k \<noteq> 16 \<longrightarrow>
            encrypt_block g E p k a d = Inl (SPSDKError ''Invalid length of key''))
       \<and> (is_inside_region p a \<and> mode p = AesMode_CTR \<and> length k = 16
            \<and> (\<forall>fac \<in> set (fac_regions p). \<not> (start_addr fac \<le> a \<and> a < end_addr fac)) \<longrightarrow>
            encrypt_block g E p k a d = Inr (d, g))
       \<and> (\<not> is_inside_region p a \<longrightarrow> encrypt_block g E p k a d = Inr (d, g))"
  using assms update_span [of p] encrypt_block_loop_outside [of "fac_regions p" a g E p k d]
  by (auto simp: encrypt_block_def BEE_ENCR_BLOCK_SIZE_def is_inside_region_def)

theorem gap_checks_mode_and_key_witness:
  "length [1, 2, 3 :: byte] \<le> 1024
   \<and> is_inside_region gap_prdb 0x400
   \<and> Min (start_addr ` set (fac_regions gap_prdb)) \<le> 0x400
   \<and> 0x400 < Max (end_addr ` set (fac_regions gap_prdb))
   \<and> encrypt_block tape_zero toy_block gap_prdb [1, 2, 3] 0x400 [1, 2, 3]
        = Inl (SPSDKError ''Invalid length of key'')
   \<and> encrypt_block tape_zero toy_block (gap_prdb\<lparr>mode := AesMode_ECB\<rparr>) example_key 0x400 [1, 2, 3]
        = Inl (SPSDKError ''only AES/CTR encryption mode supported now'')
   \<and> encrypt_block tape_zero toy_block gap_prdb example_key 0x400 [1, 2, 3]
        = Inr ([1, 2, 3], tape_zero)
   \<and> encrypt_block tape_zero toy_block (gap_prdb\<lparr>mode := AesMode_ECB\<rparr>) [1, 2, 3] 0xC00 [1, 2, 3]
        = Inr ([1, 2, 3], tape_zero)"
proof -
  have d: "length [1, 2, 3 :: byte] \<le> 1024" by simp
  have e: "is_inside_region (gap_prdb\<lparr>mode := AesMode_ECB\<rparr>) 0x400"
    "\<not> is_inside_region (gap_prdb\<lparr>mode := AesMode_ECB\<rparr>) 0xC00"
    "mode (gap_prdb\<lparr>mode := AesMode_ECB\<rparr>) \<noteq> AesMode_CTR"
    using gap_prdb_facts(2,3) by (simp_all add: is_inside_region_def AesMode_ECB_def AesMode_CTR_def)
  have k: "length example_key = 16" "length [1, 2, 3 :: byte] \<noteq> 16" by (simp_all add: example_key_def)
  show ?thesis
    using gap_checks_mode_and_key [OF d, of gap_prdb "0x400" tape_zero toy_block "[1, 2, 3]"]
      gap_checks_mode_and_key [OF d, of gap_prdb "0x400" tape_zero toy_block example_key]
      gap_checks_mode_and_key [OF d, of "gap_prdb\<lparr>mode := AesMode_ECB\<rparr>" "0x400" tape_zero toy_block example_key]
      gap_checks_mode_and_key [OF d, of "gap_prdb\<lparr>mode := AesMode_ECB\<rparr>" "0xC00" tape_zero toy_block "[1, 2, 3]"]
      gap_prdb_facts e k
    by simp
qed

subsection \<open>Fuse values\<close>

lemma list16:
  assumes "length (k::'a list) = 16"
  obtains a0 a1 a2 a3 a4 a5 a6 a7 a8 a9 a10 a11 a12 a13 a14 a15
  where "k = [a0, a1, a2, a3, a4, a5, a6, a7, a8, a9, a10, a11, a12, a13, a14, a15]"
  using assms by (auto simp: length_Suc_conv numeral_eq_Suc)

text \<open>
  C7. Fuse values. For a header with a 16-byte software key, \<open>sw_key_fuses\<close> returns
  exactly four 32-bit values: the big-endian 4-byte words of the key from the highest
  offset down (bytes 12-15 first, then 8-11, 4-7, 0-3). For the key 0x00..0x0F the result
  is [0x0C0D0E0F, 0x08090A0B, 0x04050607, 0x00010203].
\<close>

theorem sw_key_fuses_order:
  assumes "length (sw_key h) = 16"
  shows "\<exists>w0 w1 w2 w3.
           sw_key_fuses h = Inr [w0, w1, w2, w3] \<and>
           u32_ok w0 \<and> u32_ok w1 \<and> u32_ok w2 \<and> u32_ok w3 \<and>
           w0 = uint (sw_key h ! 12) * 2 ^ 24 + uint (sw_key h ! 13) * 2 ^ 16
                + uint (sw_key h ! 14) * 2 ^ 8 + uint (sw_key h ! 15) \<and>
           w1 = uint (sw_key h ! 8) * 2 ^ 24 + uint (sw_key h ! 9) * 2 ^ 16
                + uint (sw_key h ! 10) * 2 ^ 8 + uint (sw_key h ! 11) \<and>
           w2 = uint (sw_key h ! 4) * 2 ^ 24 + uint (sw_key h ! 5) * 2 ^ 16
                + uint (sw_key h ! 6) * 2 ^ 8 + uint (sw_key h ! 7) \<and>
           w3 = uint (sw_key h ! 0) * 2 ^ 24 + uint (sw_key h ! 1) * 2 ^ 16
                + uint (sw_key h ! 2) * 2 ^ 8 + uint (sw_key h ! 3)"
proof -
  from assms obtain a0 a1 a2 a3 a4 a5 a6 a7 a8 a9 a10 a11 a12 a13 a14 a15
    where k: "sw_key h = [a0, a1, a2, a3, a4, a5, a6, a7, a8, a9, a10, a11, a12, a13, a14, a15]"
    by (rule list16)
  have b: "0 \<le> uint x" "uint x \<le> 255" for x :: byte
    using uint_lt2p [of x] by simp_all
  have r: "u32_ok (uint w * 2 ^ 24 + uint x * 2 ^ 16 + uint y * 2 ^ 8 + uint z)"
    for w x y z :: byte
    using b [of w] b [of x] b [of y] b [of z] by (simp add: u32_ok_def)
  show ?thesis
    using r [of a12 a13 a14 a15] r [of a8 a9 a10 a11] r [of a4 a5 a6 a7] r [of a0 a1 a2 a3]
    by (simp add: sw_key_fuses_def k bind_err_def Let_def algebra_simps)
qed

theorem sw_key_fuses_order_witness:
  "length (sw_key example_header) = 16
   \<and> sw_key example_header = [0, 1, 2, 3, 4, 5, 6, 7, 8, 9, 10, 11, 12, 13, 14, 15]
   \<and> sw_key_fuses example_header = Inr [0x0C0D0E0F, 0x08090A0B, 0x04050607, 0x00010203]"
proof -
  have k: "sw_key example_header = [0, 1, 2, 3, 4, 5, 6, 7, 8, 9, 10, 11, 12, 13, 14, 15]"
    by (simp add: example_header_def example_key_def)
  have l: "length (sw_key example_header) = 16" by (simp add: k)
  show ?thesis
    using sw_key_fuses_order [OF l] l unfolding k by auto
qed

subsection \<open>Overlapping regions\<close>

lemma check_overlaps_regions_iff:
  "check_overlaps_regions rs a =
     (if \<exists>r \<in> set rs. start_addr r \<le> a \<and> a < end_addr r then Inl SPSDKOverlapError else Inr ())"
  by (induction rs) auto

lemma check_overlaps_iff:
  "check_overlaps hs a =
     (if \<exists>h \<in> set hs. \<exists>r \<in> set (header_fac_regions h). start_addr r \<le> a \<and> a < end_addr r
      then Inl SPSDKOverlapError else Inr ())"
  by (induction hs) (auto simp: check_overlaps_regions_iff bind_err_def)

lemma fac_init_fields:
  "BeeFacRegion_init s l lvl = Inr fac \<Longrightarrow>
     fac = \<lparr>start_addr = s, length_fac = l, protected_level = lvl\<rparr>"
  by (auto simp: BeeFacRegion_init_def bind_err_def Let_def split: sum.splits)

lemma header_views_regions:
  "(\<exists>h \<in> set (header_views st). \<exists>r \<in> set (header_fac_regions h). P r)
     \<longleftrightarrow> (\<exists>ho \<in> set (bee_headers st). \<exists>r \<in> set (fac_regions (store st (prdb_ref ho))). P r)"
  by (auto simp: header_views_def header_fac_regions_def)

lemma fac_regions_add_fac: "fac_regions (add_fac p fac) = fac_regions p @ [fac]"
  by (simp add: add_fac_def)

text \<open>
  C4. Overlap rejection. \<open>check_overlaps\<close> raises the overlap error exactly when the
  address lies in some region of some header. Registering a new (validly constructed)
  region on any engine raises the overlap error if and only if the start of the new
  region falls within a region already registered on the header of any engine. In
  particular, after the region [0x1000, 0x1400) has been registered, registering a
  region that starts at 0x1200 raises the overlap error, whichever engine it targets.
\<close>

theorem overlap_rejection:
  "(check_overlaps hs a = Inl SPSDKOverlapError \<longleftrightarrow>
      (\<exists>h \<in> set hs. \<exists>r \<in> set (header_fac_regions h). start_addr r \<le> a \<and> a < end_addr r))
   \<and> (BeeFacRegion_init s l lvl = Inr fac \<longrightarrow>
        (add_protected_region st i (s, l, lvl) = Inl SPSDKOverlapError \<longleftrightarrow>
           (\<exists>ho \<in> set (bee_headers st). \<exists>r \<in> set (fac_regions (store st (prdb_ref ho))).
              start_addr r \<le> s \<and> s < end_addr r)))
   \<and> (add_protected_region st i (0x1000, 0x400, la) = Inr stb
        \<and> BeeFacRegion_init 0x1200 lenb lb = Inr fb \<longrightarrow>
        add_protected_region stb j (0x1200, lenb, lb) = Inl SPSDKOverlapError)"
proof (intro conjI impI)
  show "check_overlaps hs a = Inl SPSDKOverlapError \<longleftrightarrow>
      (\<exists>h \<in> set hs. \<exists>r \<in> set (header_fac_regions h). start_addr r \<le> a \<and> a < end_addr r)"
    by (simp add: check_overlaps_iff)
next
  assume i: "BeeFacRegion_init s l lvl = Inr fac"
  have s: "start_addr fac = s" using fac_init_fields [OF i] by simp
  show "add_protected_region st i (s, l, lvl) = Inl SPSDKOverlapError \<longleftrightarrow>
           (\<exists>ho \<in> set (bee_headers st). \<exists>r \<in> set (fac_regions (store st (prdb_ref ho))).
              start_addr r \<le> s \<and> s < end_addr r)"
    unfolding header_views_regions [symmetric]
    by (simp add: add_protected_region_def i s bind_err_def check_overlaps_iff Let_def)
next
  assume a: "add_protected_region st i (0x1000, 0x400, la) = Inr stb
        \<and> BeeFacRegion_init 0x1200 lenb lb = Inr fb"
  then obtain fa where fa_init: "BeeFacRegion_init 0x1000 0x400 la = Inr fa"
    by (auto simp: add_protected_region_def bind_err_def split: sum.splits)
  have fa_fields: "start_addr fa = 0x1000" "end_addr fa = 0x1400"
    using fac_init_fields [OF fa_init] by (simp_all add: end_addr_def)
  from a fa_init have i: "i < length (bee_headers st)"
    and stb: "stb = st\<lparr>store := (store st)(prdb_ref (bee_headers st ! i) :=
                 add_fac (store st (prdb_ref (bee_headers st ! i))) fa)\<rparr>"
    by (auto simp: add_protected_region_def bind_err_def Let_def split: sum.splits if_splits)
  let ?ho = "bee_headers st ! i"
  have "?ho \<in> set (bee_headers stb)" using i stb by simp
  moreover have "fa \<in> set (fac_regions (store stb (prdb_ref ?ho)))"
    using stb by (simp add: fac_regions_add_fac)
  ultimately have "\<exists>ho \<in> set (bee_headers stb). \<exists>r \<in> set (fac_regions (store stb (prdb_ref ho))).
              start_addr r \<le> 0x1200 \<and> 0x1200 < end_addr r"
    using fa_fields by (intro bexI [of _ ?ho] bexI [of _ fa]) simp_all
  then have "\<exists>h \<in> set (header_views stb). \<exists>r \<in> set (header_fac_regions h).
               start_addr r \<le> 0x1200 \<and> 0x1200 < end_addr r"
    unfolding header_views_regions .
  moreover have "start_addr fb = 0x1200" using a fac_init_fields [of "0x1200" lenb lb fb] by simp
  ultimately show "add_protected_region stb j (0x1200, lenb, lb) = Inl SPSDKOverlapError"
    using a by (simp add: add_protected_region_def bind_err_def check_overlaps_iff)
qed

theorem overlap_rejection_witness:
  "BeeFacRegion_init 0x1200 0x400 0
     = Inr \<lparr>start_addr = 0x1200, length_fac = 0x400, protected_level = 0\<rparr>
   \<and> add_protected_region example_config 1 (0x1200, 0x400, 0) \<noteq> Inl SPSDKOverlapError
   \<and> (\<exists>st'. add_protected_region example_config 0 (0x1000, 0x400, 0) = Inr st'
          \<and> add_protected_region st' 0 (0x1200, 0x400, 0) = Inl SPSDKOverlapError
          \<and> add_protected_region st' 1 (0x1200, 0x400, 0) = Inl SPSDKOverlapError)"
proof -
  let ?f2 = "\<lparr>start_addr = 0x1200, length_fac = 0x400, protected_level = 0\<rparr>"
  have i2: "BeeFacRegion_init 0x1200 0x400 0 = Inr ?f2"
    by (simp add: BeeFacRegion_init_def BeeFacRegion_validate_def ENCR_BLOCK_ADDR_MASK_def
        BEE_ENCR_BLOCK_SIZE_def end_addr_def bind_err_def Let_def)
  have none: "\<not> (\<exists>ho \<in> set (bee_headers example_config).
                 \<exists>r \<in> set (fac_regions (store example_config (prdb_ref ho))).
                   start_addr r \<le> 0x1200 \<and> 0x1200 < end_addr r)"
    by (simp add: example_config_def)
  obtain st' where a: "add_protected_region example_config 0 (0x1000, 0x400, 0) = Inr st'"
    by (simp add: add_protected_region_def BeeFacRegion_init_def BeeFacRegion_validate_def
        ENCR_BLOCK_ADDR_MASK_def BEE_ENCR_BLOCK_SIZE_def end_addr_def bind_err_def Let_def
        check_overlaps_iff header_views_def header_fac_regions_def example_config_def)
  have b: "add_protected_region example_config 1 (0x1200, 0x400, 0) \<noteq> Inl SPSDKOverlapError"
    using overlap_rejection [where s = "0x1200" and l = "0x400" and lvl = 0 and fac = ?f2
        and st = example_config and i = 1, THEN conjunct2, THEN conjunct1] i2 none
    by simp
  have c: "add_protected_region st' j (0x1200, 0x400, 0) = Inl SPSDKOverlapError" for j
    using overlap_rejection [where st = example_config and i = 0 and stb = st' and la = 0
        and lenb = "0x400" and lb = 0 and fb = ?f2 and j = j, THEN conjunct2, THEN conjunct2]
      i2 a
    by simp
  show ?thesis using i2 b a c by blast
qed

subsection \<open>Addresses read from the wire\<close>

lemma parse_regions_ignores_addresses:
  "parse_regions (Suc n) d off (p\<lparr>prdb_start_addr := x, prdb_end_addr := y\<rparr>)
     = parse_regions (Suc n) d off p"
  by (simp add: bind_err_def)

lemma fac_init_valid:
  "BeeFacRegion_init s l lvl = Inr fac \<Longrightarrow> BeeFacRegion_validate fac = Inr ()"
  by (auto simp: BeeFacRegion_init_def bind_err_def Let_def split: sum.splits)

lemma fac_parse_valid:
  "BeeFacRegion_parse d off = Inr fac \<Longrightarrow> BeeFacRegion_validate fac = Inr ()"
  by (auto simp: BeeFacRegion_parse_def bind_err_def Let_def dest: fac_init_valid
      split: sum.splits if_splits)

lemma parse_regions_result:
  "parse_regions n d off p = Inr q \<Longrightarrow>
     \<exists>fs. length fs = n \<and> (\<forall>f \<in> set fs. BeeFacRegion_validate f = Inr ()) \<and>
          q = fold (\<lambda>f r. add_fac r f) fs p"
proof (induction n arbitrary: off p)
  case 0
  then show ?case by simp
next
  case (Suc n)
  from Suc.prems obtain fac where
    f: "BeeFacRegion_parse d off = Inr fac"
    and r: "parse_regions n d (off + nat BeeFacRegion_size) (add_fac p fac) = Inr q"
    by (auto simp: bind_err_def split: sum.splits)
  from Suc.IH [OF r] obtain fs where
    fs: "length fs = n" "\<forall>f \<in> set fs. BeeFacRegion_validate f = Inr ()"
      "q = fold (\<lambda>f r. add_fac r f) fs (add_fac p fac)"
    by blast
  show ?case
    using fs fac_parse_valid [OF f] by (intro exI [of _ "fac # fs"]) simp
qed

lemma fold_add_fac_regions:
  "fac_regions (fold (\<lambda>f r. add_fac r f) fs p) = fac_regions p @ fs"
  by (induction fs arbitrary: p) (simp_all add: fac_regions_add_fac)

lemma prdb_init_regions [simp]:
  "fac_regions (fst (BeeProtectRegionBlock_init g m l c)) = []"
  by (simp add: BeeProtectRegionBlock_init_def split: option.splits prod.splits)

lemma prdb_parse_derived:
  assumes "BeeProtectRegionBlock_parse g d off = Inr q"
  shows "fac_regions q \<noteq> []"
    and "(\<forall>f \<in> set (fac_regions q). BeeFacRegion_validate f = Inr ())"
    and "prdb_start_addr q = Min (start_addr ` set (fac_regions q))"
    and "prdb_end_addr q = Max (end_addr ` set (fac_regions q))"
proof -
  let ?p0 = "(fst (BeeProtectRegionBlock_init g (unpack_I d (off + 24)) (unpack_I d (off + 28))
                     (Some (rev (unpack_s 16 d (off + 32))))))
               \<lparr>prdb_start_addr := unpack_I d (off + 16), prdb_end_addr := unpack_I d (off + 20)\<rparr>"
  have p0: "fac_regions ?p0 = []" by (simp add: prdb_init_regions)
  have pr: "parse_regions (nat (unpack_I d (off + 12))) d (off + PRDB_FORMAT_SIZE) ?p0 = Inr q"
    and v: "BeeProtectRegionBlock_validate q = Inr ()"
    using assms
    by (auto simp: BeeProtectRegionBlock_parse_def bind_err_def Let_def
        split: sum.splits if_splits)
  from parse_regions_result [OF pr] obtain fs where
    fs: "\<forall>f \<in> set fs. BeeFacRegion_validate f = Inr ()" "q = fold (\<lambda>f r. add_fac r f) fs ?p0"
    by blast
  have fr: "fac_regions q = fs" using fs(2) p0 by (simp add: fold_add_fac_regions)
  show ne: "fac_regions q \<noteq> []" using prdb_validate_facts(6) [OF v] .
  show va: "\<forall>f \<in> set (fac_regions q). BeeFacRegion_validate f = Inr ()" using fs(1) fr by simp
  have "fs \<noteq> []" using ne fr by simp
  then have "q = BeeProtectRegionBlock_update (?p0\<lparr>fac_regions := fac_regions ?p0 @ fs\<rparr>)"
    using fold_add_fac fs(2) by simp
  then have "q = BeeProtectRegionBlock_update q" by simp
  then show "prdb_start_addr q = Min (start_addr ` set (fac_regions q))"
    and "prdb_end_addr q = Max (end_addr ` set (fac_regions q))"
    using update_span [OF ne va] by simp_all
qed

lemma bind_err_simps [simp]:
  "bind_err (Inl e) f = Inl e" "bind_err (Inr x) f = f x"
  by (simp_all add: bind_err_def)

lemma unpack_I_take:
  "take n d' = take n d \<Longrightarrow> j + 4 \<le> n \<Longrightarrow> unpack_I d' j = unpack_I d j"
proof -
  assume a: "take n d' = take n d" "j + 4 \<le> n"
  have "take (j + 4) d' = take (j + 4) d"
    using a by (metis min.absorb1 take_take)
  moreover have "take 4 (drop j x) = drop j (take (j + 4) x)" for x :: bytes
    by (simp add: drop_take)
  ultimately show ?thesis by (simp only: unpack_I_def)
qed

lemma drop_from:
  "drop n d' = drop n d \<Longrightarrow> n \<le> j \<Longrightarrow> drop j d' = drop j d"
proof -
  assume a: "drop n d' = drop n d" "n \<le> j"
  show ?thesis using a by (metis drop_drop le_add_diff_inverse2)
qed

lemma unpack_I_drop:
  "drop n d' = drop n d \<Longrightarrow> n \<le> j \<Longrightarrow> unpack_I d' j = unpack_I d j"
  using drop_from [of n d' d j] by (simp add: unpack_I_def)

lemma unpack_s_drop:
  "drop n d' = drop n d \<Longrightarrow> n \<le> j \<Longrightarrow> unpack_s m d' j = unpack_s m d j"
  using drop_from [of n d' d j] by (simp add: unpack_s_def)

lemma fac_parse_drop:
  assumes "length d' = length d" "drop n d' = drop n d" "n \<le> j"
  shows "BeeFacRegion_parse d' j = BeeFacRegion_parse d j"
  using assms unpack_I_drop [OF assms(2), of j] unpack_I_drop [OF assms(2), of "j + 4"]
    unpack_I_drop [OF assms(2), of "j + 8"] unpack_s_drop [OF assms(2), of "j + 12" 20]
  by (simp add: BeeFacRegion_parse_def base_parse_def)

lemma parse_regions_drop:
  assumes "length d' = length d" "drop n d' = drop n d"
  shows "n \<le> j \<Longrightarrow> parse_regions k d' j p = parse_regions k d j p"
proof (induction k arbitrary: j p)
  case 0
  then show ?case by simp
next
  case (Suc k)
  have "parse_regions k d' (j + nat BeeFacRegion_size) q
          = parse_regions k d (j + nat BeeFacRegion_size) q" for q
    using Suc.prems by (intro Suc.IH) simp
  then show ?case
    using fac_parse_drop [OF assms Suc.prems] by simp
qed

lemma prdb_parse_splice:
  assumes ws: "length ws = 8"
  shows "BeeProtectRegionBlock_parse g (take (off + 16) d @ ws @ drop (off + 24) d) off = Inr q
           \<longleftrightarrow> BeeProtectRegionBlock_parse g d off = Inr q"
proof (cases "off + 256 \<le> length d")
  case False
  let ?d' = "take (off + 16) d @ ws @ drop (off + 24) d"
  have "length ?d' < off + 256" using False ws by simp
  then have "base_parse (int PRDB_SIZE) ?d' off = Inl (SPSDKError ''Insufficient size of the data'')"
    "base_parse (int PRDB_SIZE) d off = Inl (SPSDKError ''Insufficient size of the data'')"
    using False by (simp_all add: base_parse_def PRDB_SIZE_def)
  then show ?thesis by (simp add: BeeProtectRegionBlock_parse_def bind_err_def)
next
  case True
  let ?d' = "take (off + 16) d @ ws @ drop (off + 24) d"
  have len: "length ?d' = length d" using True ws by simp
  have tk: "take (off + 16) ?d' = take (off + 16) d" using True by simp
  have dr: "drop (off + 24) ?d' = drop (off + 24) d" using True ws by simp
  have u: "unpack_I ?d' off = unpack_I d off" "unpack_I ?d' (off + 4) = unpack_I d (off + 4)"
    "unpack_I ?d' (off + 8) = unpack_I d (off + 8)"
    "unpack_I ?d' (off + 12) = unpack_I d (off + 12)"
    "unpack_I ?d' (off + 24) = unpack_I d (off + 24)"
    "unpack_I ?d' (off + 28) = unpack_I d (off + 28)"
    "unpack_s 16 ?d' (off + 32) = unpack_s 16 d (off + 32)"
    "unpack_s 32 ?d' (off + 48) = unpack_s 32 d (off + 48)"
    using unpack_I_take [OF tk] unpack_I_drop [OF dr] unpack_s_drop [OF dr] by simp_all
  have bp: "base_parse (int PRDB_SIZE) ?d' off = base_parse (int PRDB_SIZE) d off"
    using len by (simp add: base_parse_def)
  have pr: "parse_regions k ?d' (off + PRDB_FORMAT_SIZE) p
              = parse_regions k d (off + PRDB_FORMAT_SIZE) p" for k p
    using parse_regions_drop [OF len dr] by (simp add: PRDB_FORMAT_SIZE_def)
  let ?r = "fst (BeeProtectRegionBlock_init g (unpack_I d (off + 24)) (unpack_I d (off + 28))
                  (Some (rev (unpack_s 16 d (off + 32)))))"
  have key: "(bind_err (parse_regions k d (off + PRDB_FORMAT_SIZE)
                 (?r\<lparr>prdb_start_addr := x, prdb_end_addr := y\<rparr>))
               (\<lambda>result. bind_err (BeeProtectRegionBlock_validate result) (\<lambda>_. Inr result)) = Inr q)
          \<longleftrightarrow> (bind_err (parse_regions k d (off + PRDB_FORMAT_SIZE)
                 (?r\<lparr>prdb_start_addr := x', prdb_end_addr := y'\<rparr>))
               (\<lambda>result. bind_err (BeeProtectRegionBlock_validate result) (\<lambda>_. Inr result)) = Inr q)"
    for k x y x' y'
  proof (cases k)
    case 0
    have "BeeProtectRegionBlock_validate (?r\<lparr>prdb_start_addr := a, prdb_end_addr := b\<rparr>) \<noteq> Inr ()"
      for a b
      using prdb_validate_facts(6) [of "?r\<lparr>prdb_start_addr := a, prdb_end_addr := b\<rparr>"]
      by auto
    then show ?thesis using 0 by (auto simp: bind_err_def split: sum.splits)
  next
    case (Suc m)
    show ?thesis
      unfolding Suc parse_regions_ignores_addresses ..
  qed
  show ?thesis
    unfolding BeeProtectRegionBlock_parse_def bp u pr Let_def
    using key [where k = "nat (unpack_I d (off + 12))" and x = "unpack_I ?d' (off + 16)"
        and y = "unpack_I ?d' (off + 20)" and x' = "unpack_I d (off + 16)"
        and y' = "unpack_I d (off + 20)"]
    by (cases "base_parse (int PRDB_SIZE) d off") simp_all
qed

text \<open>
  C10. \<open>parse\<close> of a PRDB never rejects an encoding because its start and end address
  fields disagree with its FAC regions. The two fields read from the wire are discarded:
  replacing bytes [16:24) of an encoding by any eight bytes changes neither whether
  \<open>parse\<close> succeeds nor the PRDB it returns, because adding each parsed region
  recomputes the addresses. Hence every successfully parsed PRDB has at least one
  region, and its addresses are the least region start and the greatest region end.
\<close>

theorem parse_discards_wire_addresses:
  "(BeeProtectRegionBlock_parse g d off = Inr q \<longrightarrow>
      fac_regions q \<noteq> [] \<and>
      prdb_start_addr q = Min (start_addr ` set (fac_regions q)) \<and>
      prdb_end_addr q = Max (end_addr ` set (fac_regions q)))
   \<and> (length ws = 8 \<longrightarrow>
        (BeeProtectRegionBlock_parse g (take (off + 16) d @ ws @ drop (off + 24) d) off = Inr q
           \<longleftrightarrow> BeeProtectRegionBlock_parse g d off = Inr q))"
  using prdb_parse_derived [of g d off q] prdb_parse_splice [of ws g off d q] by blast

theorem parse_discards_wire_addresses_witness:
  "\<exists>bs. BeeProtectRegionBlock_export example_prdb = Inr bs
     \<and> length (replicate 8 (0xFF :: byte)) = 8
     \<and> BeeProtectRegionBlock_parse tape_zero (take 16 bs @ replicate 8 0xFF @ drop 24 bs) 0
          = Inr example_prdb
     \<and> fac_regions example_prdb \<noteq> []
     \<and> prdb_start_addr example_prdb = Min (start_addr ` set (fac_regions example_prdb))
     \<and> prdb_end_addr example_prdb = Max (end_addr ` set (fac_regions example_prdb))
     \<and> prdb_start_addr example_prdb = 0x1000 \<and> prdb_end_addr example_prdb = 0x1400"
proof -
  from prdb_roundtrip [OF example_validates(3) example_validates(5), of tape_zero]
  obtain bs where bs: "BeeProtectRegionBlock_export example_prdb = Inr bs"
    "BeeProtectRegionBlock_parse tape_zero bs 0 = Inr example_prdb"
    unfolding example_validates(6) by blast
  have w: "length (replicate 8 (0xFF :: byte)) = 8" by simp
  have 1: "BeeProtectRegionBlock_parse tape_zero (take 16 bs @ replicate 8 0xFF @ drop 24 bs) 0
             = Inr example_prdb"
    using parse_discards_wire_addresses [of tape_zero bs 0 example_prdb "replicate 8 0xFF"] bs(2)
    by simp
  have 2: "fac_regions example_prdb \<noteq> []
     \<and> prdb_start_addr example_prdb = Min (start_addr ` set (fac_regions example_prdb))
     \<and> prdb_end_addr example_prdb = Max (end_addr ` set (fac_regions example_prdb))"
    using parse_discards_wire_addresses
      [of tape_zero "take 16 bs @ replicate 8 0xFF @ drop 24 bs" 0 example_prdb "[]"] 1
    by simp
  have 3: "prdb_start_addr example_prdb = 0x1000 \<and> prdb_end_addr example_prdb = 0x1400"
    by (simp add: example_prdb_def)
  show ?thesis using bs(1) w 1 2 3 by blast
qed

subsection \<open>The random source\<close>



















end
